theory Spec2Isabelle
  imports Complex_Main "HOL-Library.AList" "HOL-Library.Multiset"
begin

section \<open>Data model\<close>

text \<open>
  Shallow embedding of the detection pipeline of \<^verbatim>\<open>iam-anomaly-saas\<close>
  (\<^verbatim>\<open>app/services/feature_engineer.py\<close>, \<^verbatim>\<open>anomaly_engine.py\<close>,
  \<^verbatim>\<open>risk_scoring.py\<close>) and of the rule table of \<^verbatim>\<open>iam-mvp/detector.py\<close>.

  Python \<^verbatim>\<open>int\<close> is \<^typ>\<open>int\<close>. Python \<^verbatim>\<open>float\<close> is modelled by \<^typ>\<open>rat\<close>:
  every float the scorer adds is a small whole number (rule points, the ML bonus, the
  penalty), so the float sums are exact; the ratio rules compare a quotient of two
  counters with \<^verbatim>\<open>0.30\<close>, \<^verbatim>\<open>0.20\<close>, \<^verbatim>\<open>0.40\<close>, and for counters below
  \<open>10\<^sup>1\<^sup>5\<close> the float comparison and the exact one agree.

  Names are the source's. A leading underscore is dropped (\<^verbatim>\<open>_level\<close> is
  \<open>level_of\<close>, \<^verbatim>\<open>_recommendations\<close> is \<open>recommendations_of\<close>,
  \<^verbatim>\<open>_max_consecutive_failures\<close> is \<open>max_consecutive_failures\<close>,
  \<^verbatim>\<open>_is_off_hours\<close> is \<open>is_off_hours\<close>), and the field \<^verbatim>\<open>user_arn\<close>, which four
  classes share, is \<open>user_arn\<close> in an event, \<open>uf_user_arn\<close> in the features,
  \<open>dr_user_arn\<close> in a detection result and \<open>rs_user_arn\<close> in a risk score.
\<close>

datatype py_error = ZeroDivisionError | TypeError

datatype DetectionMethod = Rule | Ml | Both | NoMethod

datatype RiskLevel = LOW | MEDIUM | HIGH | CRITICAL

text \<open>
  \<^verbatim>\<open>UserFeatures\<close> of \<^verbatim>\<open>feature_engineer.py\<close>. The fields
  \<^verbatim>\<open>event_name_entropy\<close>, \<^verbatim>\<open>ip_list\<close>, \<^verbatim>\<open>event_counts\<close>, \<^verbatim>\<open>first_seen\<close> and
  \<^verbatim>\<open>last_seen\<close> are read by no rule and by no step of the scorer (the entropy only
  enters the vector handed to the external outlier model) and are left out.
\<close>

record UserFeatures =
  uf_user_arn :: string
  total_events :: int
  unique_event_names :: int
  unique_ips :: int
  high_risk_event_count :: int
  failed_event_count :: int
  off_hours_event_count :: int
  consecutive_failures :: int
  mfa_missing_high_risk :: int
  admin_action_count :: int
  unique_regions :: int

text \<open>\<^verbatim>\<open>DetectionResult\<close> of \<^verbatim>\<open>anomaly_engine.py\<close>; \<^verbatim>\<open>details\<close> is an insertion-ordered dict.\<close>

record DetectionResult =
  dr_user_arn :: string
  is_anomaly :: bool
  detection_method :: DetectionMethod
  triggered_rules :: "string list"
  ml_anomaly_score :: rat
  details :: "(string \<times> int) list"

text \<open>
  The remediation sentences of \<^verbatim>\<open>_recommendations\<close> are fixed Korean strings, pairwise
  different; each is one constructor here, named after the condition that emits it.
\<close>

datatype Recommendation =
    REC_ENFORCE_MFA
  | REC_LOCK_OR_BLOCK
  | REC_LEAST_PRIVILEGE
  | REC_CHECK_IPS
  | REC_OFF_HOURS_POLICY
  | REC_RESTRICT_REGIONS
  | REC_ML_MANUAL_REVIEW
  | REC_URGENT_DISABLE
  | REC_NO_ACTION

record RiskScore =
  rs_user_arn :: string
  score :: rat
  level :: RiskLevel
  score_breakdown :: "(string \<times> rat) list"
  recommendations :: "Recommendation list"

section \<open>Risk scoring (\<^verbatim>\<open>risk_scoring.py\<close>)\<close>

definition RULE_BASE_SCORES :: "(string \<times> rat) list" where
  "RULE_BASE_SCORES =
    [(''R01_OFF_HOURS_ACCESS'', 10),
     (''R02_HIGH_RISK_RATIO'', 15),
     (''R03_HIGH_RISK_NO_MFA'', 20),
     (''R04_MULTIPLE_SOURCE_IPS'', 10),
     (''R05_HIGH_FAILURE_RATE'', 15),
     (''R06_CONSECUTIVE_FAILURES'', 20),
     (''R07_EXCESSIVE_ADMIN_ACTIONS'', 18),
     (''R08_MULTI_REGION_ACTIVITY'', 8),
     (''R09_EVENT_BURST'', 10)]"

definition ML_ANOMALY_BONUS :: rat where
  "ML_ANOMALY_BONUS = 15"

definition MAX_SCORE :: rat where
  "MAX_SCORE = 100"

text \<open>\<^verbatim>\<open>RULE_BASE_SCORES.get(rule, 5.0)\<close>\<close>

definition base_points :: "string \<Rightarrow> rat" where
  "base_points rule = (case map_of RULE_BASE_SCORES rule of Some pts \<Rightarrow> pts | None \<Rightarrow> 5)"

fun level_of :: "rat \<Rightarrow> RiskLevel" where
  "level_of s =
    (if s \<ge> 80 then CRITICAL
     else if s \<ge> 60 then HIGH
     else if s \<ge> 40 then MEDIUM
     else LOW)"

text \<open>
  \<^verbatim>\<open>_recommendations(result, uf, level)\<close>: the list \<^verbatim>\<open>recs\<close> is threaded through the
  source's conditionals in their order; \<^verbatim>\<open>recs.insert(0, x)\<close> is \<open>x # recs\<close>.
\<close>

definition append_if :: "bool \<Rightarrow> 'a \<Rightarrow> 'a list \<Rightarrow> 'a list" where
  "append_if c x recs = (if c then recs @ [x] else recs)"

definition recommendations_of ::
  "DetectionResult \<Rightarrow> UserFeatures \<Rightarrow> RiskLevel \<Rightarrow> Recommendation list" where
  "recommendations_of result uf lvl =
    (let recs = [];
         recs = append_if (''R03_HIGH_RISK_NO_MFA'' \<in> set (triggered_rules result))
                  REC_ENFORCE_MFA recs;
         recs = append_if (''R06_CONSECUTIVE_FAILURES'' \<in> set (triggered_rules result))
                  REC_LOCK_OR_BLOCK recs;
         recs = append_if (''R07_EXCESSIVE_ADMIN_ACTIONS'' \<in> set (triggered_rules result))
                  REC_LEAST_PRIVILEGE recs;
         recs = append_if (''R04_MULTIPLE_SOURCE_IPS'' \<in> set (triggered_rules result))
                  REC_CHECK_IPS recs;
         recs = append_if (''R01_OFF_HOURS_ACCESS'' \<in> set (triggered_rules result))
                  REC_OFF_HOURS_POLICY recs;
         recs = append_if (''R08_MULTI_REGION_ACTIVITY'' \<in> set (triggered_rules result))
                  REC_RESTRICT_REGIONS recs;
         recs = append_if (detection_method result = Ml \<or> detection_method result = Both)
                  REC_ML_MANUAL_REVIEW recs;
         recs = (if lvl = CRITICAL then REC_URGENT_DISABLE # recs else recs);
         recs = (if recs = [] then recs @ [REC_NO_ACTION] else recs)
     in recs)"

text \<open>
  Python's \<^verbatim>\<open>round(x, 2)\<close>: to the nearest multiple of \<open>1/100\<close>, a tie to the even
  neighbour.
\<close>

definition round_half_even :: "rat \<Rightarrow> int" where
  "round_half_even x =
    (let f = \<lfloor>x\<rfloor>; d = x - of_int f
     in if d < 1 / 2 then f
        else if d > 1 / 2 then f + 1
        else if even f then f else f + 1)"

definition py_round2 :: "rat \<Rightarrow> rat" where
  "py_round2 x = of_int (round_half_even (x * 100)) / 100"

text \<open>
  Step 1 of \<^verbatim>\<open>calculate_risk_score\<close>: the loop over \<^verbatim>\<open>result.triggered_rules\<close>, with
  the dict \<^verbatim>\<open>breakdown\<close> (an assignment to a present key keeps the key's place) and
  the running \<^verbatim>\<open>total\<close> (here \<open>tot\<close>) as the state.
\<close>

fun score_rules :: "string list \<Rightarrow> (string \<times> rat) list \<times> rat \<Rightarrow> (string \<times> rat) list \<times> rat" where
  "score_rules [] st = st"
| "score_rules (rule # rules) (breakdown, tot) =
    (let pts = base_points rule
     in score_rules rules (AList.update rule pts breakdown, tot + pts))"

text \<open>Steps 1 to 3: the breakdown and the total before the cap.\<close>

definition score_parts :: "DetectionResult \<Rightarrow> UserFeatures \<Rightarrow> (string \<times> rat) list \<times> rat" where
  "score_parts result uf =
    (let (breakdown, tot) = score_rules (triggered_rules result) ([], 0);
         (breakdown, tot) =
           (if detection_method result = Ml \<or> detection_method result = Both
            then (AList.update ''ML_ANOMALY'' ML_ANOMALY_BONUS breakdown, tot + ML_ANOMALY_BONUS)
            else (breakdown, tot));
         consec_penalty = min (of_int (consecutive_failures uf) * 1) 10
     in if consec_penalty > 0
        then (AList.update ''CONSECUTIVE_FAIL_PENALTY'' consec_penalty breakdown,
              tot + consec_penalty)
        else (breakdown, tot))"

definition calculate_risk_score :: "DetectionResult \<Rightarrow> UserFeatures \<Rightarrow> RiskScore" where
  "calculate_risk_score result uf =
    (let (breakdown, tot) = score_parts result uf;
         final_score = min tot MAX_SCORE;
         lvl = level_of final_score;
         recs = recommendations_of result uf lvl
     in \<lparr> rs_user_arn = dr_user_arn result,
          score = py_round2 final_score,
          level = lvl,
          score_breakdown = breakdown,
          recommendations = recs \<rparr>)"

section \<open>Events and feature aggregation (\<^verbatim>\<open>feature_engineer.py\<close>)\<close>

text \<open>
  A Python \<^verbatim>\<open>datetime\<close>: the wall-clock reading in microseconds and, for an aware
  value, its UTC offset in microseconds (\<open>None\<close> for a naive value). Two aware values
  compare by their UTC instants, two naive ones by their readings, and comparing a naive
  with an aware value raises \<^verbatim>\<open>TypeError\<close>. The parser produces aware values from
  \<^verbatim>\<open>fromisoformat\<close> and a naive one (\<^verbatim>\<open>utcnow()\<close>) for an unreadable timestamp.
\<close>

record datetime =
  wall_us :: int
  utcoffset :: "int option"

definition hour :: "datetime \<Rightarrow> int" where
  "hour dt = (wall_us dt div 3600000000) mod 24"

definition time_key :: "datetime \<Rightarrow> int" where
  "time_key dt = (case utcoffset dt of None \<Rightarrow> wall_us dt | Some off \<Rightarrow> wall_us dt - off)"

definition comparable :: "datetime list \<Rightarrow> bool" where
  "comparable ts =
    (filter (\<lambda>t. utcoffset t = None) ts = [] \<or> filter (\<lambda>t. utcoffset t \<noteq> None) ts = [])"

text \<open>
  \<^verbatim>\<open>CloudTrailEvent\<close> of \<^verbatim>\<open>schemas.py\<close>, with the fields the pipeline reads;
  \<^verbatim>\<open>error_code\<close> is \<^verbatim>\<open>str | None\<close>.
\<close>

record CloudTrailEvent =
  event_time :: datetime
  event_name :: string
  aws_region :: string
  source_ip :: string
  user_arn :: string
  mfa_used :: bool
  error_code :: "string option"
  is_high_risk :: bool

text \<open>Python truth values of a \<^verbatim>\<open>str\<close> and of a \<^verbatim>\<open>str | None\<close>.\<close>

definition truthy :: "string \<Rightarrow> bool" where
  "truthy s = (s \<noteq> [])"

definition truthy_opt :: "string option \<Rightarrow> bool" where
  "truthy_opt v = (case v of None \<Rightarrow> False | Some s \<Rightarrow> truthy s)"

definition ADMIN_EVENTS :: "string list" where
  "ADMIN_EVENTS =
    [''AttachUserPolicy'', ''AttachRolePolicy'', ''AttachGroupPolicy'',
     ''PutUserPolicy'', ''PutRolePolicy'', ''PutGroupPolicy'',
     ''CreateRole'', ''CreateUser'', ''CreateAccessKey'',
     ''AssumeRole'', ''GetSessionToken'']"

definition is_off_hours :: "datetime \<Rightarrow> bool" where
  "is_off_hours dt =
    (let dt = (if utcoffset dt = None then dt\<lparr>utcoffset := Some 0\<rparr> else dt);
         h = hour dt
     in h \<ge> 22 \<or> h < 6)"

text \<open>
  \<^verbatim>\<open>sorted(events, key=lambda e: e.event_time)\<close>: a stable sort; it raises when a naive
  and an aware timestamp meet.
\<close>

definition sorted_by_time :: "CloudTrailEvent list \<Rightarrow> py_error + CloudTrailEvent list" where
  "sorted_by_time events =
    (if comparable (map event_time events)
     then Inr (sort_key (\<lambda>e. time_key (event_time e)) events)
     else Inl TypeError)"

text \<open>The scan of \<^verbatim>\<open>_max_consecutive_failures\<close>; the state is \<open>(max_seq, current_seq)\<close>.\<close>

fun scan_failures :: "CloudTrailEvent list \<Rightarrow> int \<times> int \<Rightarrow> int \<times> int" where
  "scan_failures [] st = st"
| "scan_failures (evt # evts) (max_seq, current_seq) =
    (if truthy_opt (error_code evt)
     then (let current_seq = current_seq + 1;
               max_seq = max max_seq current_seq
           in scan_failures evts (max_seq, current_seq))
     else scan_failures evts (max_seq, 0))"

definition max_consecutive_failures :: "CloudTrailEvent list \<Rightarrow> py_error + int" where
  "max_consecutive_failures events =
    (case sorted_by_time events of
       Inl err \<Rightarrow> Inl err
     | Inr sorted_events \<Rightarrow> Inr (fst (scan_failures sorted_events (0, 0))))"

text \<open>
  \<^verbatim>\<open>user_events[evt.user_arn].append(evt)\<close> on an insertion-ordered
  \<^verbatim>\<open>defaultdict(list)\<close>.
\<close>

fun append_event :: "CloudTrailEvent \<Rightarrow> (string \<times> CloudTrailEvent list) list
    \<Rightarrow> (string \<times> CloudTrailEvent list) list" where
  "append_event evt [] = [(user_arn evt, [evt])]"
| "append_event evt ((arn, evts) # rest) =
    (if arn = user_arn evt then (arn, evts @ [evt]) # rest
     else (arn, evts) # append_event evt rest)"

definition user_events :: "CloudTrailEvent list \<Rightarrow> (string \<times> CloudTrailEvent list) list" where
  "user_events events = foldl (\<lambda>d evt. append_event evt d) [] events"

text \<open>
  The body of the loop over \<^verbatim>\<open>user_events.items()\<close>. A Python set is a duplicate-free
  list here; only its size is read. The call of \<^verbatim>\<open>_max_consecutive_failures\<close> is the
  first step that can raise; \<^verbatim>\<open>min(times)\<close> and \<^verbatim>\<open>max(times)\<close>, which fill the two
  fields left out, come after it and raise on the same batches only.
\<close>

definition count_if :: "('a \<Rightarrow> bool) \<Rightarrow> 'a list \<Rightarrow> int" where
  "count_if P xs = int (length (filter P xs))"

definition user_features :: "string \<Rightarrow> CloudTrailEvent list \<Rightarrow> py_error + UserFeatures" where
  "user_features arn user_evts =
    (let event_name_counter = remdups (map event_name user_evts);
         ip_set = remdups (map source_ip (filter (\<lambda>e. truthy (source_ip e)) user_evts));
         region_set = remdups (map aws_region (filter (\<lambda>e. truthy (aws_region e)) user_evts));
         high_risk = count_if is_high_risk user_evts;
         failed = count_if (\<lambda>e. truthy_opt (error_code e)) user_evts;
         off_hours = count_if (\<lambda>e. is_off_hours (event_time e)) user_evts;
         mfa_missing_hr = count_if (\<lambda>e. is_high_risk e \<and> \<not> mfa_used e) user_evts;
         admin_count = count_if (\<lambda>e. event_name e \<in> set ADMIN_EVENTS) user_evts
     in case max_consecutive_failures user_evts of
          Inl err \<Rightarrow> Inl err
        | Inr consec \<Rightarrow>
            Inr \<lparr> uf_user_arn = arn,
                  total_events = int (length user_evts),
                  unique_event_names = int (length event_name_counter),
                  unique_ips = int (length ip_set),
                  high_risk_event_count = high_risk,
                  failed_event_count = failed,
                  off_hours_event_count = off_hours,
                  consecutive_failures = consec,
                  mfa_missing_high_risk = mfa_missing_hr,
                  admin_action_count = admin_count,
                  unique_regions = int (length region_set) \<rparr>)"

fun features_loop :: "(string \<times> CloudTrailEvent list) list \<Rightarrow> py_error + UserFeatures list" where
  "features_loop [] = Inr []"
| "features_loop ((arn, user_evts) # rest) =
    (case user_features arn user_evts of
       Inl err \<Rightarrow> Inl err
     | Inr uf \<Rightarrow>
         (case features_loop rest of
            Inl err \<Rightarrow> Inl err
          | Inr features_list \<Rightarrow> Inr (uf # features_list)))"

definition extract_user_features :: "CloudTrailEvent list \<Rightarrow> py_error + UserFeatures list" where
  "extract_user_features events = features_loop (user_events events)"

section \<open>Rule engine and detection (\<^verbatim>\<open>anomaly_engine.py\<close>)\<close>

text \<open>Python's \<^verbatim>\<open>a / b\<close> on two ints.\<close>

definition py_truediv :: "int \<Rightarrow> int \<Rightarrow> py_error + rat" where
  "py_truediv a b = (if b = 0 then Inl ZeroDivisionError else Inr (of_int a / of_int b))"

definition bind_err :: "'e + 'a \<Rightarrow> ('a \<Rightarrow> 'e + 'b) \<Rightarrow> 'e + 'b" where
  "bind_err m f = (case m of Inl err \<Rightarrow> Inl err | Inr x \<Rightarrow> f x)"

text \<open>\<^verbatim>\<open>RuleEngine.evaluate\<close>: the nine conditionals in the source's order.\<close>

definition evaluate :: "UserFeatures \<Rightarrow> py_error + string list" where
  "evaluate uf =
    (let triggered = [];
         total' = max (total_events uf) 1
     in bind_err (py_truediv (off_hours_event_count uf) total') (\<lambda>off_ratio.
        let triggered = append_if (off_ratio > 30 / 100) ''R01_OFF_HOURS_ACCESS'' triggered
        in bind_err (py_truediv (high_risk_event_count uf) total') (\<lambda>risk_ratio.
        let triggered = append_if (risk_ratio > 20 / 100) ''R02_HIGH_RISK_RATIO'' triggered;
            triggered = append_if (mfa_missing_high_risk uf \<ge> 1) ''R03_HIGH_RISK_NO_MFA'' triggered;
            triggered = append_if (unique_ips uf \<ge> 3) ''R04_MULTIPLE_SOURCE_IPS'' triggered
        in bind_err (py_truediv (failed_event_count uf) total') (\<lambda>fail_ratio.
        let triggered = append_if (fail_ratio > 40 / 100) ''R05_HIGH_FAILURE_RATE'' triggered;
            triggered = append_if (consecutive_failures uf \<ge> 5) ''R06_CONSECUTIVE_FAILURES'' triggered;
            triggered = append_if (admin_action_count uf \<ge> 5) ''R07_EXCESSIVE_ADMIN_ACTIONS'' triggered;
            triggered = append_if (unique_regions uf \<ge> 2) ''R08_MULTI_REGION_ACTIVITY'' triggered;
            triggered = append_if (total_events uf > 100) ''R09_EVENT_BURST'' triggered
        in Inr triggered))))"

text \<open>
  \<^verbatim>\<open>MLAnomalyDetector\<close>. scikit-learn is outside the repository: the environment is
  \<open>None\<close> when its import fails, and otherwise the function that gives, for the
  contamination, the seed and the batch, the \<^verbatim>\<open>decision_function\<close> value of every row
  after scaling and fitting (one score per row).
\<close>

record MLAnomalyDetector =
  contamination :: rat
  random_state :: int

type_synonym sklearn = "(rat \<Rightarrow> int \<Rightarrow> UserFeatures list \<Rightarrow> rat list) option"

text \<open>A dict comprehension: a later value for a key replaces the earlier one.\<close>

definition dict_of :: "('k \<times> 'v) list \<Rightarrow> ('k \<times> 'v) list" where
  "dict_of kvs = foldl (\<lambda>d (k, v). AList.update k v d) [] kvs"

definition dict_get :: "('k \<times> 'v) list \<Rightarrow> 'k \<Rightarrow> 'v \<Rightarrow> 'v" where
  "dict_get d k dflt = (case map_of d k of Some v \<Rightarrow> v | None \<Rightarrow> dflt)"

definition fit_predict :: "MLAnomalyDetector \<Rightarrow> sklearn \<Rightarrow> UserFeatures list \<Rightarrow> (string \<times> rat) list" where
  "fit_predict self env features_list =
    (case env of
       None \<Rightarrow> dict_of (map (\<lambda>uf. (uf_user_arn uf, 0)) features_list)
     | Some decision_function \<Rightarrow>
         if length features_list < 2
         then dict_of (map (\<lambda>uf. (uf_user_arn uf, 0)) features_list)
         else dict_of (zip (map uf_user_arn features_list)
                (decision_function (contamination self) (random_state self) features_list)))"

record AnomalyEngine =
  ml_detector :: MLAnomalyDetector
  ml_threshold :: rat

text \<open>\<^verbatim>\<open>AnomalyEngine.__init__(ml_threshold=0.0, contamination=0.10)\<close>\<close>

definition new_AnomalyEngine :: "rat \<Rightarrow> rat \<Rightarrow> AnomalyEngine" where
  "new_AnomalyEngine threshold contam =
    \<lparr> ml_detector = \<lparr> contamination = contam, random_state = 42 \<rparr>,
      ml_threshold = threshold \<rparr>"

definition default_AnomalyEngine :: AnomalyEngine where
  "default_AnomalyEngine = new_AnomalyEngine 0 (10 / 100)"

text \<open>The body of the loop of \<^verbatim>\<open>AnomalyEngine.detect\<close>, for one account.\<close>

definition detect_one :: "AnomalyEngine \<Rightarrow> (string \<times> rat) list \<Rightarrow> UserFeatures
    \<Rightarrow> py_error + DetectionResult" where
  "detect_one self ml_scores uf =
    bind_err (evaluate uf) (\<lambda>rules.
      let rule_anomaly = (length rules > 0);
          ml_score = dict_get ml_scores (uf_user_arn uf) 0;
          ml_anomaly = (ml_score \<le> ml_threshold self);
          anomaly = (rule_anomaly \<or> ml_anomaly);
          method = (if rule_anomaly \<and> ml_anomaly then Both
                    else if rule_anomaly then Rule
                    else if ml_anomaly then Ml
                    else NoMethod)
      in Inr \<lparr> dr_user_arn = uf_user_arn uf,
               is_anomaly = anomaly,
               detection_method = method,
               triggered_rules = rules,
               ml_anomaly_score = ml_score,
               details =
                 [(''total_events'', total_events uf),
                  (''high_risk_events'', high_risk_event_count uf),
                  (''failed_events'', failed_event_count uf),
                  (''off_hours_events'', off_hours_event_count uf),
                  (''unique_ips'', unique_ips uf),
                  (''mfa_missing_high_risk'', mfa_missing_high_risk uf)] \<rparr>)"

fun detect_loop :: "AnomalyEngine \<Rightarrow> (string \<times> rat) list \<Rightarrow> UserFeatures list
    \<Rightarrow> py_error + DetectionResult list" where
  "detect_loop self ml_scores [] = Inr []"
| "detect_loop self ml_scores (uf # rest) =
    bind_err (detect_one self ml_scores uf) (\<lambda>r.
      bind_err (detect_loop self ml_scores rest) (\<lambda>results. Inr (r # results)))"

definition detect :: "AnomalyEngine \<Rightarrow> sklearn \<Rightarrow> UserFeatures list \<Rightarrow> py_error + DetectionResult list" where
  "detect self env features_list =
    (let ml_scores = fit_predict (ml_detector self) env features_list
     in detect_loop self ml_scores features_list)"

section \<open>The rule table of the minimal detector (\<^verbatim>\<open>iam-mvp/detector.py\<close>)\<close>

record MvpUserFeatures =
  mvp_user_arn :: string
  mvp_total_events :: int
  mvp_off_hours_events :: int
  mvp_high_risk_events :: int
  mvp_mfa_missing_high_risk :: int
  mvp_unique_ips :: int
  mvp_failed_events :: int
  mvp_consecutive_failures :: int
  mvp_admin_action_count :: int
  mvp_unique_regions :: int

definition ratio_gt :: "int \<Rightarrow> int \<Rightarrow> rat \<Rightarrow> py_error + bool" where
  "ratio_gt a b c = bind_err (py_truediv a b) (\<lambda>q. Inr (q > c))"

definition RULES :: "(string \<times> rat \<times> (MvpUserFeatures \<Rightarrow> py_error + bool)) list" where
  "RULES =
    [(''R01_OFF_HOURS'', 10,
        \<lambda>uf. ratio_gt (mvp_off_hours_events uf) (max (mvp_total_events uf) 1) (30 / 100)),
     (''R02_HIGH_RISK_RATIO'', 15,
        \<lambda>uf. ratio_gt (mvp_high_risk_events uf) (max (mvp_total_events uf) 1) (20 / 100)),
     (''R03_NO_MFA'', 20, \<lambda>uf. Inr (mvp_mfa_missing_high_risk uf \<ge> 1)),
     (''R04_MULTI_IP'', 10, \<lambda>uf. Inr (mvp_unique_ips uf \<ge> 3)),
     (''R05_HIGH_FAIL_RATE'', 15,
        \<lambda>uf. ratio_gt (mvp_failed_events uf) (max (mvp_total_events uf) 1) (40 / 100)),
     (''R06_CONSEC_FAIL'', 20, \<lambda>uf. Inr (mvp_consecutive_failures uf \<ge> 5)),
     (''R07_ADMIN_ABUSE'', 18, \<lambda>uf. Inr (mvp_admin_action_count uf \<ge> 5)),
     (''R08_MULTI_REGION'', 8, \<lambda>uf. Inr (mvp_unique_regions uf \<ge> 2)),
     (''R09_EVENT_BURST'', 10, \<lambda>uf. Inr (mvp_total_events uf > 100))]"

text \<open>\<^verbatim>\<open>[rid for rid, _, check in RULES if check(uf)]\<close> of \<^verbatim>\<open>detect\<close>\<close>

fun triggered_by :: "(string \<times> rat \<times> (MvpUserFeatures \<Rightarrow> py_error + bool)) list
    \<Rightarrow> MvpUserFeatures \<Rightarrow> py_error + string list" where
  "triggered_by [] uf = Inr []"
| "triggered_by ((rid, pts, check) # rules) uf =
    bind_err (check uf) (\<lambda>hit.
      bind_err (triggered_by rules uf) (\<lambda>rids. Inr (if hit then rid # rids else rids)))"

text \<open>
  The consecutive-failure loop of \<^verbatim>\<open>extract_features\<close>: the same scan, over the
  bucket's events in their input order (this file does not sort).
\<close>

definition mvp_max_consec :: "CloudTrailEvent list \<Rightarrow> int" where
  "mvp_max_consec evts = fst (scan_failures evts (0, 0))"

section \<open>Reference definitions\<close>

text \<open>
  Definitions that are not code of the repository: they say, in the specification's
  words, what the code above is compared with.
\<close>

text \<open>The four levels by severity, to state that the level grows with the score.\<close>

fun level_rank :: "RiskLevel \<Rightarrow> nat" where
  "level_rank LOW = 0"
| "level_rank MEDIUM = 1"
| "level_rank HIGH = 2"
| "level_rank CRITICAL = 3"

text \<open>
  The additive total of the scorer: base points of the triggered rules, plus the ML bonus
  when the outlier signal contributed, plus one point per consecutive failure up to ten.
\<close>

definition additive_total :: "DetectionResult \<Rightarrow> UserFeatures \<Rightarrow> rat" where
  "additive_total result uf =
     sum_list (map base_points (triggered_rules result))
     + (if detection_method result = Ml \<or> detection_method result = Both then 15 else 0)
     + (if 0 < consecutive_failures uf then min (of_int (consecutive_failures uf)) 10 else 0)"

text \<open>
  The rule catalog as a table of identifier and predicate value, in catalog order; the
  three ratio predicates divide by the total floored at 1. \<open>picked\<close> keeps the
  identifiers whose predicate holds.
\<close>

definition rule_table :: "UserFeatures \<Rightarrow> (string \<times> bool) list" where
  "rule_table uf =
    [(''R01_OFF_HOURS_ACCESS'',
        of_int (off_hours_event_count uf) / of_int (max (total_events uf) 1) > (30 / 100 :: rat)),
     (''R02_HIGH_RISK_RATIO'',
        of_int (high_risk_event_count uf) / of_int (max (total_events uf) 1) > (20 / 100 :: rat)),
     (''R03_HIGH_RISK_NO_MFA'', mfa_missing_high_risk uf \<ge> 1),
     (''R04_MULTIPLE_SOURCE_IPS'', unique_ips uf \<ge> 3),
     (''R05_HIGH_FAILURE_RATE'',
        of_int (failed_event_count uf) / of_int (max (total_events uf) 1) > (40 / 100 :: rat)),
     (''R06_CONSECUTIVE_FAILURES'', consecutive_failures uf \<ge> 5),
     (''R07_EXCESSIVE_ADMIN_ACTIONS'', admin_action_count uf \<ge> 5),
     (''R08_MULTI_REGION_ACTIVITY'', unique_regions uf \<ge> 2),
     (''R09_EVENT_BURST'', total_events uf > 100)]"

definition mvp_rule_table :: "MvpUserFeatures \<Rightarrow> (string \<times> bool) list" where
  "mvp_rule_table uf =
    [(''R01_OFF_HOURS'',
        of_int (mvp_off_hours_events uf) / of_int (max (mvp_total_events uf) 1) > (30 / 100 :: rat)),
     (''R02_HIGH_RISK_RATIO'',
        of_int (mvp_high_risk_events uf) / of_int (max (mvp_total_events uf) 1) > (20 / 100 :: rat)),
     (''R03_NO_MFA'', mvp_mfa_missing_high_risk uf \<ge> 1),
     (''R04_MULTI_IP'', mvp_unique_ips uf \<ge> 3),
     (''R05_HIGH_FAIL_RATE'',
        of_int (mvp_failed_events uf) / of_int (max (mvp_total_events uf) 1) > (40 / 100 :: rat)),
     (''R06_CONSEC_FAIL'', mvp_consecutive_failures uf \<ge> 5),
     (''R07_ADMIN_ABUSE'', mvp_admin_action_count uf \<ge> 5),
     (''R08_MULTI_REGION'', mvp_unique_regions uf \<ge> 2),
     (''R09_EVENT_BURST'', mvp_total_events uf > 100)]"

definition picked :: "(string \<times> bool) list \<Rightarrow> string list" where
  "picked tbl = map fst (filter snd tbl)"

definition one_if :: "bool \<Rightarrow> 'a \<Rightarrow> 'a list" where
  "one_if c x = (if c then [x] else [])"

text \<open>
  The remediation sentences by rule, in two orders: the order of the rule catalog, and
  the order in which \<open>recommendations_of\<close> tests the rules. \<open>recommendations_in\<close>
  assembles the list as the specification describes it, for a given order: the urgent
  directive first when the level is CRITICAL, one sentence per triggered rule that has
  one, the generic sentence when the ML signal contributed, and the "no action"
  sentence alone when nothing else is there.
\<close>

definition REMEDIATION_CATALOG_ORDER :: "(string \<times> Recommendation) list" where
  "REMEDIATION_CATALOG_ORDER =
    [(''R01_OFF_HOURS_ACCESS'', REC_OFF_HOURS_POLICY),
     (''R03_HIGH_RISK_NO_MFA'', REC_ENFORCE_MFA),
     (''R04_MULTIPLE_SOURCE_IPS'', REC_CHECK_IPS),
     (''R06_CONSECUTIVE_FAILURES'', REC_LOCK_OR_BLOCK),
     (''R07_EXCESSIVE_ADMIN_ACTIONS'', REC_LEAST_PRIVILEGE),
     (''R08_MULTI_REGION_ACTIVITY'', REC_RESTRICT_REGIONS)]"

definition REMEDIATION_SOURCE_ORDER :: "(string \<times> Recommendation) list" where
  "REMEDIATION_SOURCE_ORDER =
    [(''R03_HIGH_RISK_NO_MFA'', REC_ENFORCE_MFA),
     (''R06_CONSECUTIVE_FAILURES'', REC_LOCK_OR_BLOCK),
     (''R07_EXCESSIVE_ADMIN_ACTIONS'', REC_LEAST_PRIVILEGE),
     (''R04_MULTIPLE_SOURCE_IPS'', REC_CHECK_IPS),
     (''R01_OFF_HOURS_ACCESS'', REC_OFF_HOURS_POLICY),
     (''R08_MULTI_REGION_ACTIVITY'', REC_RESTRICT_REGIONS)]"

definition sentences_for :: "(string \<times> Recommendation) list \<Rightarrow> string list \<Rightarrow> Recommendation list" where
  "sentences_for order rules = map snd (filter (\<lambda>entry. fst entry \<in> set rules) order)"

definition recommendations_in ::
  "(string \<times> Recommendation) list \<Rightarrow> string list \<Rightarrow> DetectionMethod \<Rightarrow> RiskLevel
     \<Rightarrow> Recommendation list" where
  "recommendations_in order rules method lvl =
    (let recs = one_if (lvl = CRITICAL) REC_URGENT_DISABLE
                @ sentences_for order rules
                @ one_if (method = Ml \<or> method = Both) REC_ML_MANUAL_REVIEW
     in if recs = [] then [REC_NO_ACTION] else recs)"

text \<open>An event counts as failed when its \<open>error_code\<close> is a non-empty string.\<close>

definition failed :: "CloudTrailEvent \<Rightarrow> bool" where
  "failed e = truthy_opt (error_code e)"

section \<open>Concrete inputs\<close>

text \<open>Accounts, results and events at which the theorems below are instantiated.\<close>

definition no_features :: "string \<Rightarrow> UserFeatures" where
  "no_features arn =
    \<lparr> uf_user_arn = arn, total_events = 0, unique_event_names = 0, unique_ips = 0,
      high_risk_event_count = 0, failed_event_count = 0, off_hours_event_count = 0,
      consecutive_failures = 0, mfa_missing_high_risk = 0, admin_action_count = 0,
      unique_regions = 0 \<rparr>"

definition no_result :: "string \<Rightarrow> DetectionResult" where
  "no_result arn =
    \<lparr> dr_user_arn = arn, is_anomaly = False, detection_method = NoMethod,
      triggered_rules = [], ml_anomaly_score = 0, details = [] \<rparr>"

definition mvp_no_features :: "string \<Rightarrow> MvpUserFeatures" where
  "mvp_no_features arn =
    \<lparr> mvp_user_arn = arn, mvp_total_events = 0, mvp_off_hours_events = 0,
      mvp_high_risk_events = 0, mvp_mfa_missing_high_risk = 0, mvp_unique_ips = 0,
      mvp_failed_events = 0, mvp_consecutive_failures = 0, mvp_admin_action_count = 0,
      mvp_unique_regions = 0 \<rparr>"

text \<open>An environment in which scikit-learn is present and scores the batch as given.\<close>

definition sklearn_scoring :: "rat list \<Rightarrow> sklearn" where
  "sklearn_scoring scores = Some (\<lambda>contam seed features_list. scores)"

text \<open>
  Alice: ten events, one of them high-privilege without MFA (rule R03 alone). Bob: three
  uneventful events (no rule).
\<close>

definition alice_features :: UserFeatures where
  "alice_features = (no_features ''alice'')\<lparr>total_events := 10, high_risk_event_count := 1,
     mfa_missing_high_risk := 1\<rparr>"

definition bob_features :: UserFeatures where
  "bob_features = (no_features ''bob'')\<lparr>total_events := 3\<rparr>"

text \<open>
  Carol: ten events, four of them at night, one high-privilege without MFA (rules R01
  and R03), and her detection result when the outlier score is 0.1.
\<close>

definition carol_features :: UserFeatures where
  "carol_features = (no_features ''carol'')\<lparr>total_events := 10, off_hours_event_count := 4,
     high_risk_event_count := 1, mfa_missing_high_risk := 1\<rparr>"

definition carol_result :: DetectionResult where
  "carol_result =
    \<lparr> dr_user_arn = ''carol'', is_anomaly = True, detection_method = Rule,
      triggered_rules = [''R01_OFF_HOURS_ACCESS'', ''R03_HIGH_RISK_NO_MFA''],
      ml_anomaly_score = 1 / 10,
      details = [(''total_events'', 10), (''high_risk_events'', 1), (''failed_events'', 0),
        (''off_hours_events'', 4), (''unique_ips'', 0), (''mfa_missing_high_risk'', 1)] \<rparr>"

text \<open>
  Events: an aware UTC timestamp from seconds, and an uneventful successful read as the
  base that the examples vary.
\<close>

definition utc :: "int \<Rightarrow> datetime" where
  "utc secs = \<lparr> wall_us = secs * 1000000, utcoffset = Some 0 \<rparr>"

definition plain_event :: "string \<Rightarrow> int \<Rightarrow> CloudTrailEvent" where
  "plain_event arn secs =
    \<lparr> event_time = utc secs, event_name = ''GetObject'', aws_region = ''us-east-1'',
      source_ip = ''10.0.0.1'', user_arn = arn, mfa_used = False, error_code = None,
      is_high_risk = False \<rparr>"

definition failed_event :: "string \<Rightarrow> int \<Rightarrow> CloudTrailEvent" where
  "failed_event arn secs = (plain_event arn secs)\<lparr>error_code := Some ''AccessDenied''\<rparr>"

definition risky_event :: "string \<Rightarrow> int \<Rightarrow> CloudTrailEvent" where
  "risky_event arn secs = (plain_event arn secs)\<lparr>event_name := ''DeleteUser'', is_high_risk := True\<rparr>"

text \<open>
  Erin: four high-privilege events without MFA from one address, at 10:00 to 10:03.
  Frank: one uneventful event. Mallory: eight denied calls at night (02:00 to 02:07),
  of four kinds, from three addresses and two regions. In the batch of the three,
  Mallory's feature vector is the extreme one in eleven of the thirteen coordinates
  that vary, Erin's in three, so Mallory is the account an isolation forest isolates
  first; with three rows and contamination 0.10 the offset of the decision function lies
  just above the lowest of the three scores, which makes Mallory's value negative and
  the other two positive. The results below carry scores of that pattern.
\<close>

definition erin_events :: "CloudTrailEvent list" where
  "erin_events = [risky_event ''erin'' 36000, risky_event ''erin'' 36060,
     risky_event ''erin'' 36120, risky_event ''erin'' 36180]"

definition denied_event :: "string \<Rightarrow> int \<Rightarrow> string \<Rightarrow> string \<Rightarrow> string \<Rightarrow> CloudTrailEvent" where
  "denied_event arn secs name ip region =
     (failed_event arn secs)\<lparr>event_name := name, source_ip := ip, aws_region := region\<rparr>"

definition mallory_events :: "CloudTrailEvent list" where
  "mallory_events =
    [denied_event ''mallory'' 7200 ''GetObject'' ''10.0.0.7'' ''us-east-1'',
     denied_event ''mallory'' 7260 ''ListBuckets'' ''10.0.0.8'' ''eu-west-1'',
     denied_event ''mallory'' 7320 ''PutObject'' ''10.0.0.9'' ''us-east-1'',
     denied_event ''mallory'' 7380 ''DescribeInstances'' ''10.0.0.7'' ''eu-west-1'',
     denied_event ''mallory'' 7440 ''GetObject'' ''10.0.0.8'' ''us-east-1'',
     denied_event ''mallory'' 7500 ''ListBuckets'' ''10.0.0.9'' ''eu-west-1'',
     denied_event ''mallory'' 7560 ''PutObject'' ''10.0.0.7'' ''us-east-1'',
     denied_event ''mallory'' 7620 ''DescribeInstances'' ''10.0.0.8'' ''eu-west-1'']"

definition three_account_batch :: "CloudTrailEvent list" where
  "three_account_batch = erin_events @ [plain_event ''frank'' 40000] @ mallory_events"

definition erin_features :: UserFeatures where
  "erin_features = (no_features ''erin'')\<lparr>total_events := 4, unique_event_names := 1,
     unique_ips := 1, high_risk_event_count := 4, mfa_missing_high_risk := 4,
     unique_regions := 1\<rparr>"

definition frank_features :: UserFeatures where
  "frank_features = (no_features ''frank'')\<lparr>total_events := 1, unique_event_names := 1,
     unique_ips := 1, unique_regions := 1\<rparr>"

definition mallory_features :: UserFeatures where
  "mallory_features = (no_features ''mallory'')\<lparr>total_events := 8, unique_event_names := 4,
     unique_ips := 3, failed_event_count := 8, off_hours_event_count := 8,
     consecutive_failures := 8, unique_regions := 2\<rparr>"

definition three_account_scores :: "rat list" where
  "three_account_scores = [1 / 10, 3 / 20, - (1 / 50)]"

definition erin_result :: DetectionResult where
  "erin_result =
    \<lparr> dr_user_arn = ''erin'', is_anomaly = True, detection_method = Rule,
      triggered_rules = [''R02_HIGH_RISK_RATIO'', ''R03_HIGH_RISK_NO_MFA''],
      ml_anomaly_score = 1 / 10,
      details = [(''total_events'', 4), (''high_risk_events'', 4), (''failed_events'', 0),
        (''off_hours_events'', 0), (''unique_ips'', 1), (''mfa_missing_high_risk'', 4)] \<rparr>"

definition frank_result :: DetectionResult where
  "frank_result =
    \<lparr> dr_user_arn = ''frank'', is_anomaly = False, detection_method = NoMethod,
      triggered_rules = [], ml_anomaly_score = 3 / 20,
      details = [(''total_events'', 1), (''high_risk_events'', 0), (''failed_events'', 0),
        (''off_hours_events'', 0), (''unique_ips'', 1), (''mfa_missing_high_risk'', 0)] \<rparr>"

definition mallory_result :: DetectionResult where
  "mallory_result =
    \<lparr> dr_user_arn = ''mallory'', is_anomaly = True, detection_method = Both,
      triggered_rules = [''R01_OFF_HOURS_ACCESS'', ''R04_MULTIPLE_SOURCE_IPS'',
        ''R05_HIGH_FAILURE_RATE'', ''R06_CONSECUTIVE_FAILURES'', ''R08_MULTI_REGION_ACTIVITY''],
      ml_anomaly_score = - (1 / 50),
      details = [(''total_events'', 8), (''high_risk_events'', 0), (''failed_events'', 8),
        (''off_hours_events'', 8), (''unique_ips'', 3), (''mfa_missing_high_risk'', 0)] \<rparr>"

text \<open>
  Gina: four events, two of them without a source address and one without a region;
  the address field takes three distinct values, the empty string among them.
\<close>

definition gina_events :: "CloudTrailEvent list" where
  "gina_events =
    [(plain_event ''gina'' 36000)\<lparr>source_ip := []\<rparr>,
     plain_event ''gina'' 36060,
     (plain_event ''gina'' 36120)\<lparr>source_ip := ''10.0.0.2'', aws_region := []\<rparr>,
     (plain_event ''gina'' 36180)\<lparr>source_ip := []\<rparr>]"

definition gina_features :: UserFeatures where
  "gina_features = (no_features ''gina'')\<lparr>total_events := 4, unique_event_names := 1,
     unique_ips := 2, unique_regions := 1\<rparr>"

text \<open>
  Heidi: five failures and one success, all logged in the same second, in two input
  orders. Ivan: three failures and then a success, a minute apart, in two input orders.
\<close>

definition heidi_events :: "CloudTrailEvent list" where
  "heidi_events =
    [failed_event ''heidi'' 36000, failed_event ''heidi'' 36000, failed_event ''heidi'' 36000,
     failed_event ''heidi'' 36000, failed_event ''heidi'' 36000, plain_event ''heidi'' 36000]"

definition heidi_reordered :: "CloudTrailEvent list" where
  "heidi_reordered =
    [failed_event ''heidi'' 36000, failed_event ''heidi'' 36000, plain_event ''heidi'' 36000,
     failed_event ''heidi'' 36000, failed_event ''heidi'' 36000, failed_event ''heidi'' 36000]"

definition heidi_features :: UserFeatures where
  "heidi_features = (no_features ''heidi'')\<lparr>total_events := 6, unique_event_names := 1,
     unique_ips := 1, failed_event_count := 5, consecutive_failures := 5, unique_regions := 1\<rparr>"

definition ivan_events :: "CloudTrailEvent list" where
  "ivan_events =
    [failed_event ''ivan'' 36000, failed_event ''ivan'' 36060, failed_event ''ivan'' 36120,
     plain_event ''ivan'' 36180]"

definition ivan_reordered :: "CloudTrailEvent list" where
  "ivan_reordered =
    [failed_event ''ivan'' 36000, plain_event ''ivan'' 36180, failed_event ''ivan'' 36060,
     failed_event ''ivan'' 36120]"

section \<open>The risk scorer\<close>

subsection \<open>Points and totals\<close>

lemma base_points_cases: "base_points r \<in> {5, 8, 10, 15, 18, 20}"
  by (simp add: base_points_def RULE_BASE_SCORES_def)

lemma base_points_pos: "0 < base_points r"
  using base_points_cases [of r] by auto

lemma base_points_int: "base_points r \<in> \<int>"
  using base_points_cases [of r] by auto

lemma base_points_unknown:
  "rule \<notin> set (map fst RULE_BASE_SCORES) \<Longrightarrow> base_points rule = 5"
  by (auto simp: base_points_def map_of_eq_None_iff [symmetric]
      simp del: map_of_eq_None_iff split: option.splits)

lemma snd_score_rules:
  "snd (score_rules rs (bd, t)) = t + sum_list (map base_points rs)"
  by (induction rs arbitrary: bd t) (simp_all add: Let_def)

lemma map_of_score_rules:
  "map_of (fst (score_rules rs (bd, t))) k =
     (if k \<in> set rs then Some (base_points k) else map_of bd k)"
  by (induction rs arbitrary: bd t) (simp_all add: Let_def update_conv')

lemma sum_base_points_nonneg: "0 \<le> sum_list (map base_points rs)"
  by (induction rs) (simp_all add: add_nonneg_nonneg less_imp_le [OF base_points_pos])

lemma sum_base_points_int: "sum_list (map base_points rs) \<in> \<int>"
  by (induction rs) (simp_all add: base_points_int)

text \<open>The loop and the two conditional additions compute the additive total.\<close>

lemma snd_score_parts: "snd (score_parts result uf) = additive_total result uf"
  unfolding score_parts_def ML_ANOMALY_BONUS_def additive_total_def
  by (cases "score_rules (triggered_rules result) ([], 0)")
     (use snd_score_rules [of "triggered_rules result" "[]" 0] in \<open>auto simp: Let_def min_def\<close>)

lemma map_of_score_parts:
  "map_of (fst (score_parts result uf)) k =
    (if k = ''CONSECUTIVE_FAIL_PENALTY'' \<and> 0 < consecutive_failures uf
       then Some (min (of_int (consecutive_failures uf)) 10)
     else if k = ''ML_ANOMALY'' \<and> (detection_method result = Ml \<or> detection_method result = Both)
       then Some 15
     else if k \<in> set (triggered_rules result) then Some (base_points k)
     else None)"
  unfolding score_parts_def ML_ANOMALY_BONUS_def
  by (cases "score_rules (triggered_rules result) ([], 0)")
     (use map_of_score_rules [of "triggered_rules result" "[]" 0 k] in
       \<open>auto simp: Let_def update_conv' min_def\<close>)

lemma additive_total_nonneg: "0 \<le> additive_total result uf"
  unfolding additive_total_def using sum_base_points_nonneg [of "triggered_rules result"]
  by (auto simp: min_def)

lemma additive_total_int: "additive_total result uf \<in> \<int>"
  unfolding additive_total_def using sum_base_points_int [of "triggered_rules result"]
  by (auto simp: min_def)

subsection \<open>Rounding\<close>

lemma round_half_even_of_int: "round_half_even (of_int n) = n"
  by (simp add: round_half_even_def)

lemma py_round2_int:
  assumes "x \<in> \<int>"
  shows "py_round2 x = x"
proof -
  from assms obtain n :: int where x: "x = of_int n" by (auto elim: Ints_cases)
  have "x * 100 = of_int (n * 100)" by (simp add: x)
  then have "round_half_even (x * 100) = n * 100"
    by (simp only: round_half_even_of_int)
  then show ?thesis by (simp add: py_round2_def x)
qed

subsection \<open>The fields of the result\<close>

lemma calc_fields:
  "score (calculate_risk_score result uf) = py_round2 (min (additive_total result uf) MAX_SCORE)"
  "level (calculate_risk_score result uf) = level_of (min (additive_total result uf) MAX_SCORE)"
  "score_breakdown (calculate_risk_score result uf) = fst (score_parts result uf)"
  "recommendations (calculate_risk_score result uf) =
     recommendations_of result uf (level_of (min (additive_total result uf) MAX_SCORE))"
  "rs_user_arn (calculate_risk_score result uf) = dr_user_arn result"
  by (simp_all add: calculate_risk_score_def Let_def snd_score_parts [symmetric] split: prod.splits)

text \<open>The capped total is a whole number, so rounding to two places leaves it as it is.\<close>

lemma score_eq_final:
  "score (calculate_risk_score result uf) = min (additive_total result uf) 100"
proof -
  have "min (additive_total result uf) 100 \<in> \<int>"
    using additive_total_int [of result uf] by (simp add: min_def)
  then show ?thesis by (simp add: calc_fields(1) MAX_SCORE_def py_round2_int)
qed

lemma level_of_mono: "s \<le> t \<Longrightarrow> level_rank (level_of s) \<le> level_rank (level_of t)"
  by simp

text \<open>
  C1. For every detection result and feature record, the score of the risk scorer lies
  in \<open>[0, 100]\<close>: it is the additive total (rule base points, ML bonus,
  consecutive-failure penalty) capped at \<open>MAX_SCORE\<close> and rounded to two places. The
  level is \<open>level_of\<close> of the capped total (and of the returned score), where
  \<open>level_of\<close> maps \<open>\<ge> 80\<close> to CRITICAL, \<open>\<ge> 60\<close> to HIGH, \<open>\<ge> 40\<close> to MEDIUM and
  anything else to LOW, and never decreases when the score grows.
\<close>

theorem score_bounded_level_monotone:
  "0 \<le> score (calculate_risk_score result uf)
   \<and> score (calculate_risk_score result uf) \<le> 100
   \<and> score (calculate_risk_score result uf) = py_round2 (min (additive_total result uf) MAX_SCORE)
   \<and> level (calculate_risk_score result uf) = level_of (min (additive_total result uf) MAX_SCORE)
   \<and> level (calculate_risk_score result uf) = level_of (score (calculate_risk_score result uf))
   \<and> (level_of s = CRITICAL \<longleftrightarrow> 80 \<le> s)
   \<and> (level_of s = HIGH \<longleftrightarrow> 60 \<le> s \<and> s < 80)
   \<and> (level_of s = MEDIUM \<longleftrightarrow> 40 \<le> s \<and> s < 60)
   \<and> (level_of s = LOW \<longleftrightarrow> s < 40)
   \<and> (s \<le> t \<longrightarrow> level_rank (level_of s) \<le> level_rank (level_of t))"
proof -
  let ?rs = "calculate_risk_score result uf"
  have sc: "score ?rs = min (additive_total result uf) 100" by (rule score_eq_final)
  have "0 \<le> score ?rs" unfolding sc using additive_total_nonneg [of result uf] by simp
  moreover have "score ?rs \<le> 100" unfolding sc by simp
  moreover have "level ?rs = level_of (score ?rs)"
    unfolding sc by (simp add: calc_fields(2) MAX_SCORE_def)
  moreover note calc_fields(1,2) [of result uf] level_of_mono [of s t]
  ultimately show ?thesis by simp
qed

theorem score_bounded_level_monotone_witness:
  "score (calculate_risk_score
      ((no_result ''alice'')\<lparr>triggered_rules := [''R03_HIGH_RISK_NO_MFA'', ''R06_CONSECUTIVE_FAILURES''],
                             detection_method := Both\<rparr>)
      ((no_features ''alice'')\<lparr>consecutive_failures := 6\<rparr>)) = 61
   \<and> level (calculate_risk_score
      ((no_result ''alice'')\<lparr>triggered_rules := [''R03_HIGH_RISK_NO_MFA'', ''R06_CONSECUTIVE_FAILURES''],
                             detection_method := Both\<rparr>)
      ((no_features ''alice'')\<lparr>consecutive_failures := 6\<rparr>)) = HIGH
   \<and> (35 :: rat) \<le> 85
   \<and> level_rank (level_of 35) \<le> level_rank (level_of 85)"
  using score_bounded_level_monotone
    [of "(no_result ''alice'')\<lparr>triggered_rules := [''R03_HIGH_RISK_NO_MFA'', ''R06_CONSECUTIVE_FAILURES''],
                             detection_method := Both\<rparr>"
        "(no_features ''alice'')\<lparr>consecutive_failures := 6\<rparr>" 35 85]
  by (simp add: additive_total_def base_points_def RULE_BASE_SCORES_def MAX_SCORE_def
      py_round2_def round_half_even_def no_result_def no_features_def)

subsection \<open>A penalty without a detection signal\<close>

lemma score_no_signal:
  assumes "triggered_rules result = []" "detection_method result = NoMethod"
    "1 \<le> consecutive_failures uf" "consecutive_failures uf \<le> 4"
  shows "score (calculate_risk_score result uf) = of_int (consecutive_failures uf)"
    and "level (calculate_risk_score result uf) = LOW"
    and "score_breakdown (calculate_risk_score result uf)
       = [(''CONSECUTIVE_FAIL_PENALTY'', of_int (consecutive_failures uf))]"
proof -
  have t: "additive_total result uf = of_int (consecutive_failures uf)"
    using assms by (simp add: additive_total_def min_def)
  have le: "(of_int (consecutive_failures uf) :: rat) \<le> 4"
    using assms(4) by (metis of_int_le_iff of_int_numeral)
  show "score (calculate_risk_score result uf) = of_int (consecutive_failures uf)"
    using le by (simp add: score_eq_final t min_def)
  show "level (calculate_risk_score result uf) = LOW"
    using le by (simp add: calc_fields(2) t MAX_SCORE_def min_def)
  show "score_breakdown (calculate_risk_score result uf)
       = [(''CONSECUTIVE_FAIL_PENALTY'', of_int (consecutive_failures uf))]"
    using assms le by (simp add: calc_fields(3) score_parts_def Let_def min_def)
qed

text \<open>
  C8. An account for which the rule engine returns no rule, whose outlier score is above
  the threshold, and whose longest failure run \<open>r\<close> satisfies \<open>1 \<le> r \<le> 4\<close>: the
  detection result has method "none" and is not an anomaly, yet the risk scorer returns
  the strictly positive score \<open>r\<close> (level LOW), the breakdown holding the penalty alone.
\<close>

theorem penalty_without_detection:
  assumes "evaluate uf = Inr []"
    and "\<not> dict_get ml_scores (uf_user_arn uf) 0 \<le> ml_threshold self"
    and "1 \<le> consecutive_failures uf" and "consecutive_failures uf \<le> 4"
  shows "\<exists>dr. detect_one self ml_scores uf = Inr dr
    \<and> triggered_rules dr = []
    \<and> detection_method dr = NoMethod
    \<and> \<not> is_anomaly dr
    \<and> score (calculate_risk_score dr uf) = of_int (consecutive_failures uf)
    \<and> 0 < score (calculate_risk_score dr uf)
    \<and> level (calculate_risk_score dr uf) = LOW
    \<and> score_breakdown (calculate_risk_score dr uf)
         = [(''CONSECUTIVE_FAIL_PENALTY'', of_int (consecutive_failures uf))]"
proof -
  obtain dr where dr: "detect_one self ml_scores uf = Inr dr"
    and tr: "triggered_rules dr = []" and dm: "detection_method dr = NoMethod"
    and an: "\<not> is_anomaly dr"
    using assms(1,2) by (simp add: detect_one_def bind_err_def Let_def)
  have pos: "(0::rat) < of_int (consecutive_failures uf)" using assms(3) by simp
  show ?thesis
    using dr tr dm an pos score_no_signal [OF tr dm assms(3,4)] by simp
qed

theorem penalty_without_detection_witness:
  "evaluate ((no_features ''bob'')\<lparr>total_events := 5, failed_event_count := 2,
        consecutive_failures := 2\<rparr>) = Inr []
   \<and> \<not> dict_get [(''bob'', 1 / 10)] ''bob'' 0 \<le> ml_threshold default_AnomalyEngine
   \<and> (\<exists>dr. detect_one default_AnomalyEngine [(''bob'', 1 / 10)]
          ((no_features ''bob'')\<lparr>total_events := 5, failed_event_count := 2,
             consecutive_failures := 2\<rparr>) = Inr dr
        \<and> detection_method dr = NoMethod
        \<and> \<not> is_anomaly dr
        \<and> score (calculate_risk_score dr
             ((no_features ''bob'')\<lparr>total_events := 5, failed_event_count := 2,
                consecutive_failures := 2\<rparr>)) = 2)"
proof -
  let ?uf = "(no_features ''bob'')\<lparr>total_events := 5, failed_event_count := 2,
        consecutive_failures := 2\<rparr>"
  have h1: "evaluate ?uf = Inr []"
    by (simp add: evaluate_def py_truediv_def bind_err_def append_if_def no_features_def)
  have h2': "\<not> dict_get [(''bob'', 1 / 10)] ''bob'' 0 \<le> ml_threshold default_AnomalyEngine"
    by (simp add: dict_get_def default_AnomalyEngine_def new_AnomalyEngine_def)
  then have h2: "\<not> dict_get [(''bob'', 1 / 10)] (uf_user_arn ?uf) 0
      \<le> ml_threshold default_AnomalyEngine"
    by (simp add: no_features_def)
  have h3: "1 \<le> consecutive_failures ?uf" and h4: "consecutive_failures ?uf \<le> 4"
    by (simp_all add: no_features_def)
  from penalty_without_detection [OF h1 h2 h3 h4, simplified] h1 h2' show ?thesis
    by auto
qed

subsection \<open>Rule identifiers outside the catalog\<close>

text \<open>
  C9. A triggered-rule identifier that is not one of the nine keys of
  \<open>RULE_BASE_SCORES\<close> has base points 5: each occurrence adds exactly 5 to the total
  before the cap (and to the score when the total stays within the cap), and the
  identifier is a key of the score breakdown, with value 5 unless it coincides with one
  of the two keys the scorer writes afterwards.
\<close>

theorem unknown_rule_scores_five:
  assumes "rule \<notin> set (map fst RULE_BASE_SCORES)"
    and "triggered_rules result = xs @ rule # ys"
  shows "base_points rule = 5
    \<and> additive_total result uf
        = additive_total (result\<lparr>triggered_rules := xs @ ys\<rparr>) uf + 5
    \<and> rule \<in> fst ` set (score_breakdown (calculate_risk_score result uf))
    \<and> (rule \<noteq> ''ML_ANOMALY'' \<and> rule \<noteq> ''CONSECUTIVE_FAIL_PENALTY'' \<longrightarrow>
         map_of (score_breakdown (calculate_risk_score result uf)) rule = Some 5)
    \<and> (additive_total result uf \<le> 100 \<longrightarrow>
         score (calculate_risk_score result uf)
           = score (calculate_risk_score (result\<lparr>triggered_rules := xs @ ys\<rparr>) uf) + 5)"
proof -
  have bp: "base_points rule = 5" using assms(1) by (rule base_points_unknown)
  have tot: "additive_total result uf
        = additive_total (result\<lparr>triggered_rules := xs @ ys\<rparr>) uf + 5"
    by (simp add: additive_total_def assms(2) bp)
  have mem: "rule \<in> set (triggered_rules result)" by (simp add: assms(2))
  have "map_of (fst (score_parts result uf)) rule \<noteq> None"
    using mem by (simp add: map_of_score_parts)
  then have key: "rule \<in> fst ` set (score_breakdown (calculate_risk_score result uf))"
    by (simp add: calc_fields(3) map_of_eq_None_iff)
  have val: "rule \<noteq> ''ML_ANOMALY'' \<and> rule \<noteq> ''CONSECUTIVE_FAIL_PENALTY'' \<longrightarrow>
         map_of (score_breakdown (calculate_risk_score result uf)) rule = Some 5"
    using mem by (simp add: calc_fields(3) map_of_score_parts bp)
  have sc: "additive_total result uf \<le> 100 \<longrightarrow>
         score (calculate_risk_score result uf)
           = score (calculate_risk_score (result\<lparr>triggered_rules := xs @ ys\<rparr>) uf) + 5"
    using tot by (simp add: score_eq_final min_def)
  from bp tot key val sc show ?thesis by blast
qed

theorem unknown_rule_scores_five_witness:
  "''R99_CUSTOM'' \<notin> set (map fst RULE_BASE_SCORES)
   \<and> base_points ''R99_CUSTOM'' = 5
   \<and> additive_total ((no_result ''carol'')\<lparr>triggered_rules :=
          [''R03_HIGH_RISK_NO_MFA'', ''R99_CUSTOM'']\<rparr>) (no_features ''carol'') = 25
   \<and> score (calculate_risk_score ((no_result ''carol'')\<lparr>triggered_rules :=
          [''R03_HIGH_RISK_NO_MFA'', ''R99_CUSTOM'']\<rparr>) (no_features ''carol'')) = 25
   \<and> map_of (score_breakdown (calculate_risk_score ((no_result ''carol'')\<lparr>triggered_rules :=
          [''R03_HIGH_RISK_NO_MFA'', ''R99_CUSTOM'']\<rparr>) (no_features ''carol''))) ''R99_CUSTOM''
        = Some 5"
proof -
  let ?r = "(no_result ''carol'')\<lparr>triggered_rules := [''R03_HIGH_RISK_NO_MFA'', ''R99_CUSTOM'']\<rparr>"
  have h1: "''R99_CUSTOM'' \<notin> set (map fst RULE_BASE_SCORES)"
    by (simp add: RULE_BASE_SCORES_def)
  have h2: "triggered_rules ?r = [''R03_HIGH_RISK_NO_MFA''] @ ''R99_CUSTOM'' # []"
    by simp
  have old: "additive_total ((no_result ''carol'')\<lparr>triggered_rules := [''R03_HIGH_RISK_NO_MFA'']\<rparr>)
      (no_features ''carol'') = 20"
    by (simp add: additive_total_def base_points_def RULE_BASE_SCORES_def no_result_def
        no_features_def)
  have old_score: "score (calculate_risk_score
      ((no_result ''carol'')\<lparr>triggered_rules := [''R03_HIGH_RISK_NO_MFA'']\<rparr>)
      (no_features ''carol'')) = 20"
    by (simp add: score_eq_final old)
  from unknown_rule_scores_five [OF h1 h2, of "no_features ''carol''"] h1 old old_score
  show ?thesis by simp
qed

section \<open>The rule engine\<close>

lemma py_truediv_floor:
  "py_truediv a (max b 1) = Inr (of_int a / of_int (max b 1))"
  by (simp add: py_truediv_def max_def)

lemma append_if_alt: "append_if c x xs = xs @ one_if c x"
  by (simp add: append_if_def one_if_def)

lemma if_Cons_alt: "(if c then k # r else r) = one_if c k @ r"
  by (simp add: one_if_def)

lemma picked_Cons: "picked ((k, c) # rest) = one_if c k @ picked rest"
  by (simp add: picked_def one_if_def)

lemma picked_Nil: "picked [] = []"
  by (simp add: picked_def)

lemma picked_mem: "k \<in> set (picked tbl) \<longleftrightarrow> (k, True) \<in> set tbl"
  by (induction tbl) (auto simp: picked_def)

text \<open>
  The nine conditionals return the identifiers of the table whose predicate holds, in
  the table's order; no division fails, every divisor being \<open>max total 1\<close>.
\<close>

lemma evaluate_closed_form: "evaluate uf = Inr (picked (rule_table uf))"
  unfolding evaluate_def Let_def py_truediv_floor bind_err_def sum.case rule_table_def
  by (simp only: append_if_alt picked_Cons picked_Nil append_Nil append_Nil2 append_assoc)

lemma triggered_by_closed_form: "triggered_by RULES uf = Inr (picked (mvp_rule_table uf))"
  unfolding RULES_def triggered_by.simps ratio_gt_def py_truediv_floor bind_err_def sum.case
    mvp_rule_table_def
  by (simp only: if_Cons_alt picked_Cons picked_Nil append_Nil append_Nil2 append_assoc)

lemma user_features_empty: "user_features arn [] = Inr (no_features arn)"
  by (simp add: user_features_def max_consecutive_failures_def sorted_by_time_def comparable_def
      count_if_def no_features_def)

lemma evaluate_no_features: "evaluate (no_features arn) = Inr []"
  unfolding evaluate_closed_form by (simp add: rule_table_def picked_def no_features_def)

lemma ratio_rules_iff:
  "''R01_OFF_HOURS_ACCESS'' \<in> set (picked (rule_table uf)) \<longleftrightarrow>
     of_int (off_hours_event_count uf) / of_int (max (total_events uf) 1) > (30 / 100 :: rat)"
  "''R02_HIGH_RISK_RATIO'' \<in> set (picked (rule_table uf)) \<longleftrightarrow>
     of_int (high_risk_event_count uf) / of_int (max (total_events uf) 1) > (20 / 100 :: rat)"
  "''R05_HIGH_FAILURE_RATE'' \<in> set (picked (rule_table uf)) \<longleftrightarrow>
     of_int (failed_event_count uf) / of_int (max (total_events uf) 1) > (40 / 100 :: rat)"
  by (simp_all add: picked_mem rule_table_def)

lemma count_rules_iff:
  "''R03_HIGH_RISK_NO_MFA'' \<in> set (picked (rule_table uf)) \<longleftrightarrow> 1 \<le> mfa_missing_high_risk uf"
  "''R04_MULTIPLE_SOURCE_IPS'' \<in> set (picked (rule_table uf)) \<longleftrightarrow> 3 \<le> unique_ips uf"
  "''R06_CONSECUTIVE_FAILURES'' \<in> set (picked (rule_table uf)) \<longleftrightarrow> 5 \<le> consecutive_failures uf"
  "''R07_EXCESSIVE_ADMIN_ACTIONS'' \<in> set (picked (rule_table uf)) \<longleftrightarrow> 5 \<le> admin_action_count uf"
  "''R08_MULTI_REGION_ACTIVITY'' \<in> set (picked (rule_table uf)) \<longleftrightarrow> 2 \<le> unique_regions uf"
  "''R09_EVENT_BURST'' \<in> set (picked (rule_table uf)) \<longleftrightarrow> 100 < total_events uf"
  by (simp_all add: picked_mem rule_table_def)

lemma mvp_ratio_rules_iff:
  "''R01_OFF_HOURS'' \<in> set (picked (mvp_rule_table muf)) \<longleftrightarrow>
     of_int (mvp_off_hours_events muf) / of_int (max (mvp_total_events muf) 1) > (30 / 100 :: rat)"
  "''R02_HIGH_RISK_RATIO'' \<in> set (picked (mvp_rule_table muf)) \<longleftrightarrow>
     of_int (mvp_high_risk_events muf) / of_int (max (mvp_total_events muf) 1) > (20 / 100 :: rat)"
  "''R05_HIGH_FAIL_RATE'' \<in> set (picked (mvp_rule_table muf)) \<longleftrightarrow>
     of_int (mvp_failed_events muf) / of_int (max (mvp_total_events muf) 1) > (40 / 100 :: rat)"
  by (simp_all add: picked_mem mvp_rule_table_def)

text \<open>
  C7. For every feature record (of either detector) rule evaluation returns a rule list
  and never an error: each of the three ratio rules compares its counter, divided by the
  total floored at 1, with its threshold. For an account with zero events and a zero
  numerator the ratio rule is false, and the features of an empty event partition give
  the empty verdict.
\<close>

theorem ratio_rules_never_divide_by_zero:
  "(\<exists>rules. evaluate uf = Inr rules
      \<and> (''R01_OFF_HOURS_ACCESS'' \<in> set rules \<longleftrightarrow>
           of_int (off_hours_event_count uf) / of_int (max (total_events uf) 1) > (30 / 100 :: rat))
      \<and> (''R02_HIGH_RISK_RATIO'' \<in> set rules \<longleftrightarrow>
           of_int (high_risk_event_count uf) / of_int (max (total_events uf) 1) > (20 / 100 :: rat))
      \<and> (''R05_HIGH_FAILURE_RATE'' \<in> set rules \<longleftrightarrow>
           of_int (failed_event_count uf) / of_int (max (total_events uf) 1) > (40 / 100 :: rat))
      \<and> (total_events uf = 0 \<and> off_hours_event_count uf = 0 \<longrightarrow>
           ''R01_OFF_HOURS_ACCESS'' \<notin> set rules)
      \<and> (total_events uf = 0 \<and> high_risk_event_count uf = 0 \<longrightarrow>
           ''R02_HIGH_RISK_RATIO'' \<notin> set rules)
      \<and> (total_events uf = 0 \<and> failed_event_count uf = 0 \<longrightarrow>
           ''R05_HIGH_FAILURE_RATE'' \<notin> set rules))
   \<and> (\<exists>rids. triggered_by RULES muf = Inr rids
      \<and> (''R01_OFF_HOURS'' \<in> set rids \<longleftrightarrow>
           of_int (mvp_off_hours_events muf) / of_int (max (mvp_total_events muf) 1) > (30 / 100 :: rat))
      \<and> (''R02_HIGH_RISK_RATIO'' \<in> set rids \<longleftrightarrow>
           of_int (mvp_high_risk_events muf) / of_int (max (mvp_total_events muf) 1) > (20 / 100 :: rat))
      \<and> (''R05_HIGH_FAIL_RATE'' \<in> set rids \<longleftrightarrow>
           of_int (mvp_failed_events muf) / of_int (max (mvp_total_events muf) 1) > (40 / 100 :: rat))
      \<and> (mvp_total_events muf = 0 \<and> mvp_off_hours_events muf = 0 \<longrightarrow>
           ''R01_OFF_HOURS'' \<notin> set rids)
      \<and> (mvp_total_events muf = 0 \<and> mvp_high_risk_events muf = 0 \<longrightarrow>
           ''R02_HIGH_RISK_RATIO'' \<notin> set rids)
      \<and> (mvp_total_events muf = 0 \<and> mvp_failed_events muf = 0 \<longrightarrow>
           ''R05_HIGH_FAIL_RATE'' \<notin> set rids))
   \<and> (\<exists>uf0. user_features arn [] = Inr uf0 \<and> total_events uf0 = 0 \<and> evaluate uf0 = Inr [])"
proof -
  have saas: "\<exists>rules. evaluate uf = Inr rules
      \<and> (''R01_OFF_HOURS_ACCESS'' \<in> set rules \<longleftrightarrow>
           of_int (off_hours_event_count uf) / of_int (max (total_events uf) 1) > (30 / 100 :: rat))
      \<and> (''R02_HIGH_RISK_RATIO'' \<in> set rules \<longleftrightarrow>
           of_int (high_risk_event_count uf) / of_int (max (total_events uf) 1) > (20 / 100 :: rat))
      \<and> (''R05_HIGH_FAILURE_RATE'' \<in> set rules \<longleftrightarrow>
           of_int (failed_event_count uf) / of_int (max (total_events uf) 1) > (40 / 100 :: rat))
      \<and> (total_events uf = 0 \<and> off_hours_event_count uf = 0 \<longrightarrow>
           ''R01_OFF_HOURS_ACCESS'' \<notin> set rules)
      \<and> (total_events uf = 0 \<and> high_risk_event_count uf = 0 \<longrightarrow>
           ''R02_HIGH_RISK_RATIO'' \<notin> set rules)
      \<and> (total_events uf = 0 \<and> failed_event_count uf = 0 \<longrightarrow>
           ''R05_HIGH_FAILURE_RATE'' \<notin> set rules)"
    unfolding evaluate_closed_form using ratio_rules_iff [of uf] by simp
  have mvp: "\<exists>rids. triggered_by RULES muf = Inr rids
      \<and> (''R01_OFF_HOURS'' \<in> set rids \<longleftrightarrow>
           of_int (mvp_off_hours_events muf) / of_int (max (mvp_total_events muf) 1) > (30 / 100 :: rat))
      \<and> (''R02_HIGH_RISK_RATIO'' \<in> set rids \<longleftrightarrow>
           of_int (mvp_high_risk_events muf) / of_int (max (mvp_total_events muf) 1) > (20 / 100 :: rat))
      \<and> (''R05_HIGH_FAIL_RATE'' \<in> set rids \<longleftrightarrow>
           of_int (mvp_failed_events muf) / of_int (max (mvp_total_events muf) 1) > (40 / 100 :: rat))
      \<and> (mvp_total_events muf = 0 \<and> mvp_off_hours_events muf = 0 \<longrightarrow>
           ''R01_OFF_HOURS'' \<notin> set rids)
      \<and> (mvp_total_events muf = 0 \<and> mvp_high_risk_events muf = 0 \<longrightarrow>
           ''R02_HIGH_RISK_RATIO'' \<notin> set rids)
      \<and> (mvp_total_events muf = 0 \<and> mvp_failed_events muf = 0 \<longrightarrow>
           ''R05_HIGH_FAIL_RATE'' \<notin> set rids)"
    unfolding triggered_by_closed_form using mvp_ratio_rules_iff [of muf] by simp
  have empty: "\<exists>uf0. user_features arn [] = Inr uf0 \<and> total_events uf0 = 0 \<and> evaluate uf0 = Inr []"
    unfolding user_features_empty by (simp add: evaluate_no_features) (simp add: no_features_def)
  from saas mvp empty show ?thesis by blast
qed

theorem ratio_rules_never_divide_by_zero_witness:
  "total_events (no_features ''dave'') = 0
   \<and> off_hours_event_count (no_features ''dave'') = 0
   \<and> high_risk_event_count (no_features ''dave'') = 0
   \<and> failed_event_count (no_features ''dave'') = 0
   \<and> evaluate (no_features ''dave'') = Inr []
   \<and> mvp_total_events (mvp_no_features ''dave'') = 0
   \<and> mvp_off_hours_events (mvp_no_features ''dave'') = 0
   \<and> mvp_high_risk_events (mvp_no_features ''dave'') = 0
   \<and> mvp_failed_events (mvp_no_features ''dave'') = 0
   \<and> triggered_by RULES (mvp_no_features ''dave'') = Inr []
   \<and> user_features ''dave'' [] = Inr (no_features ''dave'')"
proof -
  have z: "total_events (no_features ''dave'') = 0
     \<and> off_hours_event_count (no_features ''dave'') = 0
     \<and> high_risk_event_count (no_features ''dave'') = 0
     \<and> failed_event_count (no_features ''dave'') = 0"
    by (simp add: no_features_def)
  have mz: "mvp_total_events (mvp_no_features ''dave'') = 0
     \<and> mvp_off_hours_events (mvp_no_features ''dave'') = 0
     \<and> mvp_high_risk_events (mvp_no_features ''dave'') = 0
     \<and> mvp_failed_events (mvp_no_features ''dave'') = 0"
    by (simp add: mvp_no_features_def)
  have e: "evaluate (no_features ''dave'') = Inr []" by (rule evaluate_no_features)
  have m: "triggered_by RULES (mvp_no_features ''dave'') = Inr []"
    unfolding triggered_by_closed_form by (simp add: mvp_rule_table_def picked_def mvp_no_features_def)
  from ratio_rules_never_divide_by_zero [of "no_features ''dave''" "mvp_no_features ''dave''" "''dave''"]
    z mz e m user_features_empty [of "''dave''"]
  show ?thesis by simp
qed

section \<open>The detection pipeline\<close>

text \<open>The loop body as one record: the rule list of the table and the two flags.\<close>


lemma detect_one_closed_form:
  "detect_one self ml_scores uf =
    Inr \<lparr> dr_user_arn = uf_user_arn uf,
          is_anomaly = (picked (rule_table uf) \<noteq> []
             \<or> dict_get ml_scores (uf_user_arn uf) 0 \<le> ml_threshold self),
          detection_method =
            (if picked (rule_table uf) \<noteq> []
                \<and> dict_get ml_scores (uf_user_arn uf) 0 \<le> ml_threshold self then Both
             else if picked (rule_table uf) \<noteq> [] then Rule
             else if dict_get ml_scores (uf_user_arn uf) 0 \<le> ml_threshold self then Ml
             else NoMethod),
          triggered_rules = picked (rule_table uf),
          ml_anomaly_score = dict_get ml_scores (uf_user_arn uf) 0,
          details =
            [(''total_events'', total_events uf),
             (''high_risk_events'', high_risk_event_count uf),
             (''failed_events'', failed_event_count uf),
             (''off_hours_events'', off_hours_event_count uf),
             (''unique_ips'', unique_ips uf),
             (''mfa_missing_high_risk'', mfa_missing_high_risk uf)] \<rparr>"
  by (simp add: detect_one_def evaluate_closed_form bind_err_def Let_def)

lemma detect_one_props:
  assumes "detect_one self ml_scores uf = Inr r"
  shows "evaluate uf = Inr (triggered_rules r)"
    and "dr_user_arn r = uf_user_arn uf"
    and "ml_anomaly_score r = dict_get ml_scores (uf_user_arn uf) 0"
    and "detection_method r = Both \<longleftrightarrow>
           triggered_rules r \<noteq> [] \<and> ml_anomaly_score r \<le> ml_threshold self"
    and "detection_method r = Rule \<longleftrightarrow>
           triggered_rules r \<noteq> [] \<and> \<not> ml_anomaly_score r \<le> ml_threshold self"
    and "detection_method r = Ml \<longleftrightarrow>
           triggered_rules r = [] \<and> ml_anomaly_score r \<le> ml_threshold self"
    and "detection_method r = NoMethod \<longleftrightarrow>
           triggered_rules r = [] \<and> \<not> ml_anomaly_score r \<le> ml_threshold self"
    and "is_anomaly r \<longleftrightarrow> detection_method r \<noteq> NoMethod"
  using assms unfolding detect_one_closed_form evaluate_closed_form
  by (auto split: if_splits)

lemma detect_loop_nth:
  "\<exists>results. detect_loop self ml_scores fl = Inr results
     \<and> length results = length fl
     \<and> (\<forall>i<length fl. detect_one self ml_scores (fl ! i) = Inr (results ! i))"
proof (induction fl)
  case Nil
  show ?case by simp
next
  case (Cons uf rest)
  obtain r where r: "detect_one self ml_scores uf = Inr r"
    by (simp add: detect_one_closed_form)
  from Cons.IH obtain results where res: "detect_loop self ml_scores rest = Inr results"
    and len: "length results = length rest"
    and nth: "\<forall>i<length rest. detect_one self ml_scores (rest ! i) = Inr (results ! i)"
    by blast
  have "detect_loop self ml_scores (uf # rest) = Inr (r # results)"
    by (simp add: r res bind_err_def)
  moreover have "length (r # results) = length (uf # rest)" by (simp add: len)
  moreover have "\<forall>i<length (uf # rest).
      detect_one self ml_scores ((uf # rest) ! i) = Inr ((r # results) ! i)"
    using r nth by (auto simp: nth_Cons split: nat.splits)
  ultimately show ?case by blast
qed

text \<open>
  C2. \<open>detect\<close> returns one result per account, in order. In each, the method is
  "both" exactly when the rule list is non-empty and the outlier flag (score at or below
  the threshold) is set, "rule" exactly when only rules triggered, "ml" exactly when only
  the flag is set, "none" exactly when neither; and \<open>is_anomaly\<close> holds exactly when
  the method is not "none".
\<close>

theorem detection_method_consistent:
  "\<exists>results. detect self env features_list = Inr results
     \<and> length results = length features_list
     \<and> (\<forall>i<length features_list.
          evaluate (features_list ! i) = Inr (triggered_rules (results ! i))
        \<and> dr_user_arn (results ! i) = uf_user_arn (features_list ! i)
        \<and> ml_anomaly_score (results ! i)
            = dict_get (fit_predict (ml_detector self) env features_list)
                (uf_user_arn (features_list ! i)) 0
        \<and> (detection_method (results ! i) = Both \<longleftrightarrow>
             triggered_rules (results ! i) \<noteq> []
             \<and> ml_anomaly_score (results ! i) \<le> ml_threshold self)
        \<and> (detection_method (results ! i) = Rule \<longleftrightarrow>
             triggered_rules (results ! i) \<noteq> []
             \<and> \<not> ml_anomaly_score (results ! i) \<le> ml_threshold self)
        \<and> (detection_method (results ! i) = Ml \<longleftrightarrow>
             triggered_rules (results ! i) = []
             \<and> ml_anomaly_score (results ! i) \<le> ml_threshold self)
        \<and> (detection_method (results ! i) = NoMethod \<longleftrightarrow>
             triggered_rules (results ! i) = []
             \<and> \<not> ml_anomaly_score (results ! i) \<le> ml_threshold self)
        \<and> (is_anomaly (results ! i) \<longleftrightarrow> detection_method (results ! i) \<noteq> NoMethod))"
proof -
  let ?ml = "fit_predict (ml_detector self) env features_list"
  from detect_loop_nth [of self ?ml features_list]
  obtain results where res: "detect_loop self ?ml features_list = Inr results"
    and len: "length results = length features_list"
    and nth: "\<forall>i<length features_list.
        detect_one self ?ml (features_list ! i) = Inr (results ! i)"
    by blast
  have "detect self env features_list = Inr results"
    by (simp add: detect_def Let_def res)
  moreover note len
  moreover have "\<forall>i<length features_list.
          evaluate (features_list ! i) = Inr (triggered_rules (results ! i))
        \<and> dr_user_arn (results ! i) = uf_user_arn (features_list ! i)
        \<and> ml_anomaly_score (results ! i)
            = dict_get ?ml (uf_user_arn (features_list ! i)) 0
        \<and> (detection_method (results ! i) = Both \<longleftrightarrow>
             triggered_rules (results ! i) \<noteq> []
             \<and> ml_anomaly_score (results ! i) \<le> ml_threshold self)
        \<and> (detection_method (results ! i) = Rule \<longleftrightarrow>
             triggered_rules (results ! i) \<noteq> []
             \<and> \<not> ml_anomaly_score (results ! i) \<le> ml_threshold self)
        \<and> (detection_method (results ! i) = Ml \<longleftrightarrow>
             triggered_rules (results ! i) = []
             \<and> ml_anomaly_score (results ! i) \<le> ml_threshold self)
        \<and> (detection_method (results ! i) = NoMethod \<longleftrightarrow>
             triggered_rules (results ! i) = []
             \<and> \<not> ml_anomaly_score (results ! i) \<le> ml_threshold self)
        \<and> (is_anomaly (results ! i) \<longleftrightarrow> detection_method (results ! i) \<noteq> NoMethod)"
  proof (intro allI impI)
    fix i assume "i < length features_list"
    with nth have d: "detect_one self ?ml (features_list ! i) = Inr (results ! i)" by blast
    from detect_one_props [OF d] show "evaluate (features_list ! i) = Inr (triggered_rules (results ! i))
        \<and> dr_user_arn (results ! i) = uf_user_arn (features_list ! i)
        \<and> ml_anomaly_score (results ! i)
            = dict_get ?ml (uf_user_arn (features_list ! i)) 0
        \<and> (detection_method (results ! i) = Both \<longleftrightarrow>
             triggered_rules (results ! i) \<noteq> []
             \<and> ml_anomaly_score (results ! i) \<le> ml_threshold self)
        \<and> (detection_method (results ! i) = Rule \<longleftrightarrow>
             triggered_rules (results ! i) \<noteq> []
             \<and> \<not> ml_anomaly_score (results ! i) \<le> ml_threshold self)
        \<and> (detection_method (results ! i) = Ml \<longleftrightarrow>
             triggered_rules (results ! i) = []
             \<and> ml_anomaly_score (results ! i) \<le> ml_threshold self)
        \<and> (detection_method (results ! i) = NoMethod \<longleftrightarrow>
             triggered_rules (results ! i) = []
             \<and> \<not> ml_anomaly_score (results ! i) \<le> ml_threshold self)
        \<and> (is_anomaly (results ! i) \<longleftrightarrow> detection_method (results ! i) \<noteq> NoMethod)"
      by blast
  qed
  ultimately show ?thesis by blast
qed

lemma fit_predict_two:
  "fit_predict det (sklearn_scoring [a, b]) [alice_features, bob_features]
     = [(''alice'', a), (''bob'', b)]"
  by (simp add: fit_predict_def sklearn_scoring_def dict_of_def alice_features_def
      bob_features_def no_features_def)

lemma picked_alice: "picked (rule_table alice_features) = [''R03_HIGH_RISK_NO_MFA'']"
  by (simp add: rule_table_def picked_def alice_features_def no_features_def)

lemma picked_bob: "picked (rule_table bob_features) = []"
  by (simp add: rule_table_def picked_def bob_features_def no_features_def)

lemma arn_alice_bob:
  "uf_user_arn alice_features = ''alice''" "uf_user_arn bob_features = ''bob''"
  by (simp_all add: alice_features_def bob_features_def no_features_def)

lemma threshold_default: "ml_threshold default_AnomalyEngine = 0"
  by (simp add: default_AnomalyEngine_def new_AnomalyEngine_def)

theorem detection_method_consistent_witness:
  "(0 :: nat) < length [alice_features, bob_features]
   \<and> (1 :: nat) < length [alice_features, bob_features]
   \<and> (\<exists>results. detect default_AnomalyEngine (sklearn_scoring [1 / 10, - 1 / 10])
          [alice_features, bob_features] = Inr results
        \<and> length results = 2
        \<and> triggered_rules (results ! 0) = [''R03_HIGH_RISK_NO_MFA'']
        \<and> ml_anomaly_score (results ! 0) = 1 / 10
        \<and> detection_method (results ! 0) = Rule
        \<and> is_anomaly (results ! 0)
        \<and> triggered_rules (results ! 1) = []
        \<and> ml_anomaly_score (results ! 1) = - 1 / 10
        \<and> detection_method (results ! 1) = Ml
        \<and> is_anomaly (results ! 1))"
proof -
  let ?fl = "[alice_features, bob_features]"
  from detection_method_consistent
    [of default_AnomalyEngine "sklearn_scoring [1 / 10, - 1 / 10]" ?fl]
  obtain results where res: "detect default_AnomalyEngine (sklearn_scoring [1 / 10, - 1 / 10]) ?fl
      = Inr results"
    and len: "length results = length ?fl"
    and all: "\<forall>i<length ?fl.
          evaluate (?fl ! i) = Inr (triggered_rules (results ! i))
        \<and> dr_user_arn (results ! i) = uf_user_arn (?fl ! i)
        \<and> ml_anomaly_score (results ! i)
            = dict_get (fit_predict (ml_detector default_AnomalyEngine)
                 (sklearn_scoring [1 / 10, - 1 / 10]) ?fl) (uf_user_arn (?fl ! i)) 0
        \<and> (detection_method (results ! i) = Both \<longleftrightarrow>
             triggered_rules (results ! i) \<noteq> []
             \<and> ml_anomaly_score (results ! i) \<le> ml_threshold default_AnomalyEngine)
        \<and> (detection_method (results ! i) = Rule \<longleftrightarrow>
             triggered_rules (results ! i) \<noteq> []
             \<and> \<not> ml_anomaly_score (results ! i) \<le> ml_threshold default_AnomalyEngine)
        \<and> (detection_method (results ! i) = Ml \<longleftrightarrow>
             triggered_rules (results ! i) = []
             \<and> ml_anomaly_score (results ! i) \<le> ml_threshold default_AnomalyEngine)
        \<and> (detection_method (results ! i) = NoMethod \<longleftrightarrow>
             triggered_rules (results ! i) = []
             \<and> \<not> ml_anomaly_score (results ! i) \<le> ml_threshold default_AnomalyEngine)
        \<and> (is_anomaly (results ! i) \<longleftrightarrow> detection_method (results ! i) \<noteq> NoMethod)"
    by blast
  have i0: "(0 :: nat) < length ?fl" and i1: "(1 :: nat) < length ?fl" by simp_all
  have a0: "triggered_rules (results ! 0) = [''R03_HIGH_RISK_NO_MFA'']
      \<and> ml_anomaly_score (results ! 0) = 1 / 10
      \<and> detection_method (results ! 0) = Rule \<and> is_anomaly (results ! 0)"
    using all [rule_format, OF i0]
    by (auto simp: evaluate_closed_form picked_alice fit_predict_two arn_alice_bob dict_get_def
        threshold_default)
  have a1: "triggered_rules (results ! 1) = []
      \<and> ml_anomaly_score (results ! 1) = - 1 / 10
      \<and> detection_method (results ! 1) = Ml \<and> is_anomaly (results ! 1)"
    using all [rule_format, OF i1]
    by (auto simp: evaluate_closed_form picked_bob fit_predict_two arn_alice_bob dict_get_def
        threshold_default)
  from res len a0 a1 show ?thesis by simp
qed

subsection \<open>The fallback of the outlier detector\<close>


lemma map_of_foldl_update:
  "map_of (foldl (\<lambda>d (k, v). AList.update k v d) d kvs) k =
     (case map_of (rev kvs) k of Some v \<Rightarrow> Some v | None \<Rightarrow> map_of d k)"
proof (induction kvs arbitrary: d)
  case Nil
  show ?case by simp
next
  case (Cons p kvs)
  obtain k' v' where p: "p = (k', v')" by (cases p)
  show ?case
    by (simp add: p Cons.IH update_conv' map_add_def split: option.splits)
qed

lemma map_of_dict_of: "map_of (dict_of kvs) k = map_of (rev kvs) k"
  by (simp add: dict_of_def map_of_foldl_update split: option.splits)

lemma dict_get_all_zero:
  assumes "\<forall>p\<in>set kvs. snd p = (0 :: rat)"
  shows "dict_get (dict_of kvs) k 0 = 0"
proof (cases "map_of (rev kvs) k")
  case None
  then show ?thesis by (simp add: dict_get_def map_of_dict_of)
next
  case (Some v)
  then have "(k, v) \<in> set (rev kvs)" by (rule map_of_SomeD)
  with assms have "v = 0" by auto
  with Some show ?thesis by (simp add: dict_get_def map_of_dict_of)
qed

lemma fit_predict_fallback:
  assumes "length features_list < 2 \<or> env = None"
  shows "dict_get (fit_predict det env features_list) k 0 = 0"
proof -
  have z: "dict_get (dict_of (map (\<lambda>uf. (uf_user_arn uf, 0 :: rat)) features_list)) k 0 = 0"
    by (rule dict_get_all_zero) simp
  show ?thesis
  proof (cases env)
    case None
    then show ?thesis using z by (simp add: fit_predict_def)
  next
    case (Some f)
    with assms have "length features_list < 2" by simp
    then show ?thesis using z Some by (simp add: fit_predict_def)
  qed
qed

text \<open>
  With fewer than two accounts, or without scikit-learn, every score is 0; under any
  threshold that is not negative every account of the batch is then reported as an
  anomaly with the ML signal set.
\<close>

lemma fallback_flags_every_account:
  assumes "length features_list < 2 \<or> env = None"
    and "0 \<le> ml_threshold self"
    and "detect self env features_list = Inr results"
    and "r \<in> set results"
  shows "ml_anomaly_score r = 0 \<and> is_anomaly r
    \<and> (detection_method r = Ml \<or> detection_method r = Both)"
proof -
  let ?ml = "fit_predict (ml_detector self) env features_list"
  from detect_loop_nth [of self ?ml features_list] assms(3)
  have len: "length results = length features_list"
    and nth: "\<forall>i<length features_list.
        detect_one self ?ml (features_list ! i) = Inr (results ! i)"
    by (auto simp: detect_def Let_def)
  from assms(4) obtain i where i: "i < length results" and r: "results ! i = r"
    by (auto simp: in_set_conv_nth)
  have d: "detect_one self ?ml (features_list ! i) = Inr r"
    using nth i len r by auto
  have s: "ml_anomaly_score r = 0"
    using detect_one_props(3) [OF d] fit_predict_fallback [OF assms(1)] by simp
  with assms(2) have flag: "ml_anomaly_score r \<le> ml_threshold self" by simp
  from detect_one_props(4-8) [OF d] flag s show ?thesis
    by (cases "triggered_rules r = []") auto
qed

text \<open>
  C3. On a batch of one account (whatever the environment), and on any batch when
  scikit-learn is missing, \<open>fit_predict\<close> gives every account the score 0; under the
  default threshold 0 the test \<open>ml_score \<le> ml_threshold\<close> of \<open>detect\<close> then holds,
  and the account is reported as an ML anomaly: Bob, for whom no rule triggers, gets
  the method "ml" and \<open>is_anomaly = True\<close>.
\<close>

theorem neutral_score_is_flagged:
  "fit_predict (ml_detector default_AnomalyEngine) env [bob_features] = [(''bob'', 0)]
   \<and> detect default_AnomalyEngine env [bob_features]
       = Inr [\<lparr> dr_user_arn = ''bob'', is_anomaly = True, detection_method = Ml,
                triggered_rules = [], ml_anomaly_score = 0,
                details = [(''total_events'', 3), (''high_risk_events'', 0),
                  (''failed_events'', 0), (''off_hours_events'', 0), (''unique_ips'', 0),
                  (''mfa_missing_high_risk'', 0)] \<rparr>]
   \<and> fit_predict (ml_detector default_AnomalyEngine) None [alice_features, bob_features]
       = [(''alice'', 0), (''bob'', 0)]
   \<and> detect default_AnomalyEngine None [alice_features, bob_features]
       = Inr [\<lparr> dr_user_arn = ''alice'', is_anomaly = True, detection_method = Both,
                triggered_rules = [''R03_HIGH_RISK_NO_MFA''], ml_anomaly_score = 0,
                details = [(''total_events'', 10), (''high_risk_events'', 1),
                  (''failed_events'', 0), (''off_hours_events'', 0), (''unique_ips'', 0),
                  (''mfa_missing_high_risk'', 1)] \<rparr>,
              \<lparr> dr_user_arn = ''bob'', is_anomaly = True, detection_method = Ml,
                triggered_rules = [], ml_anomaly_score = 0,
                details = [(''total_events'', 3), (''high_risk_events'', 0),
                  (''failed_events'', 0), (''off_hours_events'', 0), (''unique_ips'', 0),
                  (''mfa_missing_high_risk'', 0)] \<rparr>]"
proof -
  have f1: "fit_predict (ml_detector default_AnomalyEngine) env [bob_features] = [(''bob'', 0)]"
    by (cases env) (simp_all add: fit_predict_def dict_of_def arn_alice_bob)
  have f2: "fit_predict (ml_detector default_AnomalyEngine) None [alice_features, bob_features]
       = [(''alice'', 0), (''bob'', 0)]"
    by (simp add: fit_predict_def dict_of_def arn_alice_bob)
  have d1: "detect default_AnomalyEngine env [bob_features]
       = Inr [\<lparr> dr_user_arn = ''bob'', is_anomaly = True, detection_method = Ml,
                triggered_rules = [], ml_anomaly_score = 0,
                details = [(''total_events'', 3), (''high_risk_events'', 0),
                  (''failed_events'', 0), (''off_hours_events'', 0), (''unique_ips'', 0),
                  (''mfa_missing_high_risk'', 0)] \<rparr>]"
    unfolding detect_def Let_def f1
    by (simp add: detect_one_closed_form bind_err_def picked_bob arn_alice_bob dict_get_def
        threshold_default) (simp add: bob_features_def no_features_def)
  have d2: "detect default_AnomalyEngine None [alice_features, bob_features]
       = Inr [\<lparr> dr_user_arn = ''alice'', is_anomaly = True, detection_method = Both,
                triggered_rules = [''R03_HIGH_RISK_NO_MFA''], ml_anomaly_score = 0,
                details = [(''total_events'', 10), (''high_risk_events'', 1),
                  (''failed_events'', 0), (''off_hours_events'', 0), (''unique_ips'', 0),
                  (''mfa_missing_high_risk'', 1)] \<rparr>,
              \<lparr> dr_user_arn = ''bob'', is_anomaly = True, detection_method = Ml,
                triggered_rules = [], ml_anomaly_score = 0,
                details = [(''total_events'', 3), (''high_risk_events'', 0),
                  (''failed_events'', 0), (''off_hours_events'', 0), (''unique_ips'', 0),
                  (''mfa_missing_high_risk'', 0)] \<rparr>]"
    unfolding detect_def Let_def f2
    by (simp add: detect_one_closed_form bind_err_def picked_bob picked_alice arn_alice_bob
        dict_get_def threshold_default)
       (simp add: bob_features_def alice_features_def no_features_def)
  from f1 d1 f2 d2 show ?thesis by blast
qed

section \<open>Recommendations\<close>


lemma sentences_for_Cons:
  "sentences_for ((k, v) # rest) rules = one_if (k \<in> set rules) v @ sentences_for rest rules"
  by (simp add: sentences_for_def one_if_def)

lemma sentences_for_Nil: "sentences_for [] rules = []"
  by (simp add: sentences_for_def)

lemma if_Nil_append: "(if xs = [] then xs @ ys else xs) = (if xs = [] then ys else xs)"
  by simp

lemma recommendations_of_closed_form:
  "recommendations_of result uf lvl =
     recommendations_in REMEDIATION_SOURCE_ORDER (triggered_rules result)
       (detection_method result) lvl"
  unfolding recommendations_of_def recommendations_in_def REMEDIATION_SOURCE_ORDER_def Let_def
    if_Nil_append
  by (simp only: append_if_alt if_Cons_alt sentences_for_Cons sentences_for_Nil
      append_Nil append_Nil2 append_assoc)

lemma one_if_eq_Nil: "one_if c x = [] \<longleftrightarrow> \<not> c"
  by (simp add: one_if_def)

lemma hd_one_if_append: "hd (one_if c x @ ys) = (if c then x else hd ys)"
  by (simp add: one_if_def)

lemma sentences_for_set:
  "set (sentences_for order rules) = snd ` {e \<in> set order. fst e \<in> set rules}"
  by (simp add: sentences_for_def)

lemma sentences_source_plain:
  "REC_NO_ACTION \<notin> set (sentences_for REMEDIATION_SOURCE_ORDER rules)"
  "REC_URGENT_DISABLE \<notin> set (sentences_for REMEDIATION_SOURCE_ORDER rules)"
  "REC_ML_MANUAL_REVIEW \<notin> set (sentences_for REMEDIATION_SOURCE_ORDER rules)"
  by (auto simp: sentences_for_set REMEDIATION_SOURCE_ORDER_def)

lemma sentences_source_empty:
  "sentences_for REMEDIATION_SOURCE_ORDER rules = [] \<longleftrightarrow>
     set rules \<inter> fst ` set REMEDIATION_SOURCE_ORDER = {}"
proof -
  have "sentences_for REMEDIATION_SOURCE_ORDER rules = [] \<longleftrightarrow>
      set (sentences_for REMEDIATION_SOURCE_ORDER rules) = {}" by simp
  also have "\<dots> \<longleftrightarrow> set rules \<inter> fst ` set REMEDIATION_SOURCE_ORDER = {}"
    unfolding sentences_for_set by force
  finally show ?thesis .
qed

text \<open>
  C6, amended. The recommendations of every risk assessment are the list that
  \<open>recommendations_in\<close> assembles in the order in which the source tests the rules
  (R03, R06, R07, R04, R01, R08), not in catalog order: one sentence per triggered rule
  among these six, then the generic sentence exactly when the method is "ml" or "both",
  the urgent directive in front exactly when the level is CRITICAL, and the "no action"
  sentence, alone, exactly when the list would otherwise be empty.
\<close>

theorem recommendations_in_source_order:
  "recommendations (calculate_risk_score result uf)
     = recommendations_in REMEDIATION_SOURCE_ORDER (triggered_rules result)
         (detection_method result) (level (calculate_risk_score result uf))
   \<and> (level (calculate_risk_score result uf) = CRITICAL \<longleftrightarrow>
        hd (recommendations (calculate_risk_score result uf)) = REC_URGENT_DISABLE)
   \<and> (REC_ML_MANUAL_REVIEW \<in> set (recommendations (calculate_risk_score result uf)) \<longleftrightarrow>
        detection_method result = Ml \<or> detection_method result = Both)
   \<and> (REC_NO_ACTION \<in> set (recommendations (calculate_risk_score result uf)) \<longleftrightarrow>
        recommendations (calculate_risk_score result uf) = [REC_NO_ACTION])
   \<and> (recommendations (calculate_risk_score result uf) = [REC_NO_ACTION] \<longleftrightarrow>
        level (calculate_risk_score result uf) \<noteq> CRITICAL
        \<and> set (triggered_rules result) \<inter> fst ` set REMEDIATION_SOURCE_ORDER = {}
        \<and> detection_method result \<noteq> Ml \<and> detection_method result \<noteq> Both)"
proof -
  let ?lvl = "level (calculate_risk_score result uf)"
  let ?recs = "recommendations (calculate_risk_score result uf)"
  let ?S = "sentences_for REMEDIATION_SOURCE_ORDER (triggered_rules result)"
  let ?ml = "detection_method result = Ml \<or> detection_method result = Both"
  define body where "body = one_if (?lvl = CRITICAL) REC_URGENT_DISABLE @ ?S
      @ one_if ?ml REC_ML_MANUAL_REVIEW"
  have eq: "?recs = recommendations_in REMEDIATION_SOURCE_ORDER (triggered_rules result)
         (detection_method result) ?lvl"
    by (simp add: calc_fields(2,4) recommendations_of_closed_form)
  have recs: "?recs = (if body = [] then [REC_NO_ACTION] else body)"
    unfolding eq body_def by (simp add: recommendations_in_def Let_def)
  note plain = sentences_source_plain [of "triggered_rules result"]
  have body_empty: "body = [] \<longleftrightarrow> ?lvl \<noteq> CRITICAL \<and> ?S = [] \<and> \<not> ?ml"
    unfolding body_def by (simp add: one_if_eq_Nil)
  have no_action_body: "REC_NO_ACTION \<notin> set body"
    unfolding body_def using plain by (simp add: one_if_def)
  have ml_body: "REC_ML_MANUAL_REVIEW \<in> set body \<longleftrightarrow> ?ml"
    unfolding body_def using plain by (simp add: one_if_def)
  have hd_body: "body \<noteq> [] \<Longrightarrow> hd body = REC_URGENT_DISABLE \<longleftrightarrow> ?lvl = CRITICAL"
  proof (cases "?lvl = CRITICAL")
    case True
    then show ?thesis unfolding body_def by (simp add: one_if_def)
  next
    case False
    assume "body \<noteq> []"
    then have "hd body \<in> set body" by (rule hd_in_set)
    moreover have "REC_URGENT_DISABLE \<notin> set body"
      unfolding body_def using plain False by (simp add: one_if_def)
    ultimately show ?thesis using False by metis
  qed
  have crit_nonempty: "?lvl = CRITICAL \<Longrightarrow> body \<noteq> []"
    using body_empty by blast
  have urgent: "?lvl = CRITICAL \<longleftrightarrow> hd ?recs = REC_URGENT_DISABLE"
  proof (cases "body = []")
    case True
    with crit_nonempty show ?thesis unfolding recs by auto
  next
    case False
    with hd_body show ?thesis unfolding recs by simp
  qed
  have ml: "REC_ML_MANUAL_REVIEW \<in> set ?recs \<longleftrightarrow> ?ml"
  proof (cases "body = []")
    case True
    with body_empty show ?thesis unfolding recs by simp
  next
    case False
    with ml_body show ?thesis unfolding recs by simp
  qed
  have not_single: "body \<noteq> [REC_NO_ACTION]"
    using no_action_body by (metis list.set_intros(1))
  have na0: "?recs = [REC_NO_ACTION] \<longleftrightarrow> body = []"
    unfolding recs using not_single by simp
  have na1: "REC_NO_ACTION \<in> set ?recs \<longleftrightarrow> ?recs = [REC_NO_ACTION]"
  proof (cases "body = []")
    case True
    then show ?thesis unfolding recs by simp
  next
    case False
    with no_action_body not_single show ?thesis unfolding recs by simp
  qed
  have na2: "?recs = [REC_NO_ACTION] \<longleftrightarrow>
        ?lvl \<noteq> CRITICAL
        \<and> set (triggered_rules result) \<inter> fst ` set REMEDIATION_SOURCE_ORDER = {}
        \<and> detection_method result \<noteq> Ml \<and> detection_method result \<noteq> Both"
    using na0 body_empty sentences_source_empty [of "triggered_rules result"] by blast
  from eq urgent ml na1 na2 show ?thesis by blast
qed

text \<open>
  C6 as stated fails: for Carol the rules R01 and R03 trigger, and the recommendations
  hold the sentence of R03 before that of R01, the reverse of the catalog order.
\<close>

theorem recommendations_not_in_catalog_order:
  "detect_one default_AnomalyEngine [(''carol'', 1 / 10)] carol_features = Inr carol_result
   \<and> triggered_rules carol_result = [''R01_OFF_HOURS_ACCESS'', ''R03_HIGH_RISK_NO_MFA'']
   \<and> level (calculate_risk_score carol_result carol_features) = LOW
   \<and> recommendations (calculate_risk_score carol_result carol_features)
       = [REC_ENFORCE_MFA, REC_OFF_HOURS_POLICY]
   \<and> recommendations_in REMEDIATION_CATALOG_ORDER (triggered_rules carol_result)
         (detection_method carol_result) (level (calculate_risk_score carol_result carol_features))
       = [REC_OFF_HOURS_POLICY, REC_ENFORCE_MFA]
   \<and> recommendations (calculate_risk_score carol_result carol_features)
       \<noteq> recommendations_in REMEDIATION_CATALOG_ORDER (triggered_rules carol_result)
           (detection_method carol_result) (level (calculate_risk_score carol_result carol_features))"
proof -
  have d: "detect_one default_AnomalyEngine [(''carol'', 1 / 10)] carol_features = Inr carol_result"
    by (simp add: detect_one_closed_form rule_table_def picked_def carol_features_def
        carol_result_def no_features_def dict_get_def threshold_default)
  have t: "triggered_rules carol_result = [''R01_OFF_HOURS_ACCESS'', ''R03_HIGH_RISK_NO_MFA'']"
    and m: "detection_method carol_result = Rule"
    by (simp_all add: carol_result_def)
  have tot: "additive_total carol_result carol_features = 30"
    by (simp add: additive_total_def t m base_points_def RULE_BASE_SCORES_def carol_features_def
        no_features_def)
  have l: "level (calculate_risk_score carol_result carol_features) = LOW"
    by (simp add: calc_fields(2) tot MAX_SCORE_def)
  have r: "recommendations (calculate_risk_score carol_result carol_features)
       = [REC_ENFORCE_MFA, REC_OFF_HOURS_POLICY]"
    unfolding calc_fields(4) tot
    by (simp add: MAX_SCORE_def recommendations_of_def append_if_def t m)
  have c: "recommendations_in REMEDIATION_CATALOG_ORDER (triggered_rules carol_result)
         (detection_method carol_result) (level (calculate_risk_score carol_result carol_features))
       = [REC_OFF_HOURS_POLICY, REC_ENFORCE_MFA]"
    unfolding l t m
    by (simp add: recommendations_in_def REMEDIATION_CATALOG_ORDER_def sentences_for_def one_if_def)
  from d t l r c show ?thesis by simp
qed

section \<open>Feature aggregation\<close>

text \<open>The definitions that evaluating a concrete batch unfolds.\<close>


lemmas event_defs = failed_event_def plain_event_def utc_def
lemmas feature_defs = user_features_def max_consecutive_failures_def sorted_by_time_def
     comparable_def time_key_def truthy_def truthy_opt_def count_if_def is_off_hours_def hour_def
     ADMIN_EVENTS_def

lemma user_features_fields:
  assumes "user_features arn evts = Inr uf"
  shows "uf_user_arn uf = arn"
    and "total_events uf = int (length evts)"
    and "unique_event_names uf = int (length (remdups (map event_name evts)))"
    and "unique_ips uf
           = int (length (remdups (map source_ip (filter (\<lambda>e. truthy (source_ip e)) evts))))"
    and "high_risk_event_count uf = count_if is_high_risk evts"
    and "failed_event_count uf = count_if (\<lambda>e. truthy_opt (error_code e)) evts"
    and "off_hours_event_count uf = count_if (\<lambda>e. is_off_hours (event_time e)) evts"
    and "max_consecutive_failures evts = Inr (consecutive_failures uf)"
    and "mfa_missing_high_risk uf = count_if (\<lambda>e. is_high_risk e \<and> \<not> mfa_used e) evts"
    and "admin_action_count uf = count_if (\<lambda>e. event_name e \<in> set ADMIN_EVENTS) evts"
    and "unique_regions uf
           = int (length (remdups (map aws_region (filter (\<lambda>e. truthy (aws_region e)) evts))))"
  using assms by (auto simp: user_features_def Let_def split: sum.splits)

text \<open>The size of a set built from the non-empty values of a field.\<close>

lemma distinct_values_card:
  "length (remdups (map f (filter (\<lambda>e. truthy (f e)) evts))) = card (f ` set evts - {[]})"
proof -
  have "set (map f (filter (\<lambda>e. truthy (f e)) evts)) = f ` set evts - {[]}"
    by (auto simp: truthy_def)
  then show ?thesis by (simp only: length_remdups_card_conv)
qed

subsection \<open>Grouping by account\<close>

lemma map_of_append_event:
  "map_of (append_event evt d) k =
     (if k = user_arn evt
      then Some ((case map_of d k of None \<Rightarrow> [] | Some es \<Rightarrow> es) @ [evt])
      else map_of d k)"
  by (induction d) auto

lemma keys_append_event:
  "map fst (append_event evt d) =
     (if user_arn evt \<in> set (map fst d) then map fst d else map fst d @ [user_arn evt])"
  by (induction d) force+

lemma user_events_snoc: "user_events (evs @ [evt]) = append_event evt (user_events evs)"
  by (simp add: user_events_def)

lemma distinct_keys_user_events: "distinct (map fst (user_events evs))"
proof (induction evs rule: rev_induct)
  case Nil
  show ?case by (simp add: user_events_def)
next
  case (snoc evt evs)
  then show ?case by (simp add: user_events_snoc keys_append_event)
qed

text \<open>The dict maps every account of the batch to its events, in their input order.\<close>

lemma map_of_user_events:
  "map_of (user_events evs) k =
     (if k \<in> user_arn ` set evs then Some (filter (\<lambda>e. user_arn e = k) evs) else None)"
proof (induction evs rule: rev_induct)
  case Nil
  show ?case by (simp add: user_events_def)
next
  case (snoc evt evs)
  have none: "filter (\<lambda>e. user_arn e = k) evs = []" if "k \<notin> user_arn ` set evs"
    using that by (auto simp: filter_empty_conv)
  show ?case
  proof (cases "k = user_arn evt")
    case True
    then show ?thesis
      using snoc.IH none by (simp add: user_events_snoc map_of_append_event)
  next
    case False
    then show ?thesis
      using snoc.IH by (simp add: user_events_snoc map_of_append_event)
  qed
qed

lemma user_events_member:
  assumes "(arn, evts) \<in> set (user_events evs)"
  shows "evts = filter (\<lambda>e. user_arn e = arn) evs" and "arn \<in> user_arn ` set evs"
proof -
  have "map_of (user_events evs) arn = Some evts"
    using assms distinct_keys_user_events by (simp add: map_of_eq_Some_iff)
  then show "evts = filter (\<lambda>e. user_arn e = arn) evs" and "arn \<in> user_arn ` set evs"
    by (simp_all add: map_of_user_events split: if_splits)
qed

lemma features_loop_member:
  assumes "features_loop d = Inr features_list" "uf \<in> set features_list"
  shows "\<exists>arn evts. (arn, evts) \<in> set d \<and> user_features arn evts = Inr uf"
  using assms
proof (induction d arbitrary: features_list)
  case Nil
  then show ?case by simp
next
  case (Cons p d)
  obtain arn evts where p: "p = (arn, evts)" by (cases p)
  from Cons.prems(1) obtain uf0 rest where
    uf0: "user_features arn evts = Inr uf0" and rest: "features_loop d = Inr rest"
    and fl: "features_list = uf0 # rest"
    by (auto simp: p split: sum.splits)
  show ?case
  proof (cases "uf = uf0")
    case True
    with uf0 p show ?thesis by auto
  next
    case False
    with Cons.prems(2) fl have "uf \<in> set rest" by simp
    from Cons.IH [OF rest this] show ?thesis by auto
  qed
qed

text \<open>Every returned feature record is that of its account's events.\<close>

lemma extract_member:
  assumes "extract_user_features events = Inr features_list" "uf \<in> set features_list"
  shows "user_features (uf_user_arn uf) (filter (\<lambda>e. user_arn e = uf_user_arn uf) events) = Inr uf"
    and "uf_user_arn uf \<in> user_arn ` set events"
proof -
  from features_loop_member [OF assms [unfolded extract_user_features_def]]
  obtain arn evts where m: "(arn, evts) \<in> set (user_events events)"
    and u: "user_features arn evts = Inr uf" by blast
  have a: "uf_user_arn uf = arn" using u by (rule user_features_fields(1))
  from user_events_member [OF m] u a
  show "user_features (uf_user_arn uf) (filter (\<lambda>e. user_arn e = uf_user_arn uf) events) = Inr uf"
    and "uf_user_arn uf \<in> user_arn ` set events"
    by simp_all
qed

subsection \<open>When aggregation returns\<close>

lemma comparable_iff:
  "comparable ts \<longleftrightarrow> (\<forall>t\<in>set ts. utcoffset t = None) \<or> (\<forall>t\<in>set ts. utcoffset t \<noteq> None)"
  by (auto simp: comparable_def filter_empty_conv)

lemma comparable_subset:
  "comparable ts \<Longrightarrow> set ts' \<subseteq> set ts \<Longrightarrow> comparable ts'"
  unfolding comparable_iff by blast

lemma user_features_returns:
  "comparable (map event_time evts) \<Longrightarrow> \<exists>uf. user_features arn evts = Inr uf"
  by (simp add: user_features_def max_consecutive_failures_def sorted_by_time_def Let_def)

lemma features_loop_returns:
  "(\<forall>p\<in>set d. comparable (map event_time (snd p))) \<Longrightarrow> \<exists>fl. features_loop d = Inr fl"
proof (induction d)
  case Nil
  show ?case by simp
next
  case (Cons p d)
  obtain arn evts where p: "p = (arn, evts)" by (cases p)
  from Cons.prems have "comparable (map event_time evts)" by (simp add: p)
  then obtain uf where uf: "user_features arn evts = Inr uf"
    using user_features_returns by blast
  from Cons obtain fl where fl: "features_loop d = Inr fl" by auto
  show ?case by (simp add: p uf fl)
qed

lemma extract_returns:
  assumes "comparable (map event_time events)"
  shows "\<exists>features_list. extract_user_features events = Inr features_list"
  unfolding extract_user_features_def
proof (rule features_loop_returns, rule ballI)
  fix p assume "p \<in> set (user_events events)"
  then have "(fst p, snd p) \<in> set (user_events events)" by simp
  then have "snd p = filter (\<lambda>e. user_arn e = fst p) events" by (rule user_events_member(1))
  then have "set (map event_time (snd p)) \<subseteq> set (map event_time events)" by auto
  with assms show "comparable (map event_time (snd p))" by (rule comparable_subset)
qed

text \<open>
  C10. Aggregation returns whenever the timestamps of the batch are mutually comparable,
  and in every feature record it returns the distinct-address count is the number of
  distinct non-empty \<open>source_ip\<close> values of the account's events, the
  distinct-region count the number of distinct non-empty \<open>aws_region\<close> values: the
  empty string is never counted, so rule R04 triggers exactly when there are three
  non-empty addresses and rule R08 exactly when there are two non-empty regions.
\<close>

theorem empty_values_not_counted:
  "(comparable (map event_time events) \<longrightarrow>
      (\<exists>features_list. extract_user_features events = Inr features_list))
   \<and> (\<forall>features_list uf.
        extract_user_features events = Inr features_list \<and> uf \<in> set features_list \<longrightarrow>
          unique_ips uf
            = int (card (source_ip ` {e \<in> set events. user_arn e = uf_user_arn uf} - {[]}))
        \<and> unique_regions uf
            = int (card (aws_region ` {e \<in> set events. user_arn e = uf_user_arn uf} - {[]}))
        \<and> (\<exists>rules. evaluate uf = Inr rules
            \<and> (''R04_MULTIPLE_SOURCE_IPS'' \<in> set rules \<longleftrightarrow>
                 3 \<le> card (source_ip ` {e \<in> set events. user_arn e = uf_user_arn uf} - {[]}))
            \<and> (''R08_MULTI_REGION_ACTIVITY'' \<in> set rules \<longleftrightarrow>
                 2 \<le> card (aws_region ` {e \<in> set events. user_arn e = uf_user_arn uf} - {[]}))))"
proof (intro conjI allI impI)
  assume "comparable (map event_time events)"
  then show "\<exists>features_list. extract_user_features events = Inr features_list"
    by (rule extract_returns)
next
  fix features_list uf
  assume a: "extract_user_features events = Inr features_list \<and> uf \<in> set features_list"
  let ?evts = "filter (\<lambda>e. user_arn e = uf_user_arn uf) events"
  from a have a1: "extract_user_features events = Inr features_list"
    and a2: "uf \<in> set features_list" by simp_all
  have u: "user_features (uf_user_arn uf) ?evts = Inr uf"
    using a1 a2 by (rule extract_member(1))
  have s: "set ?evts = {e \<in> set events. user_arn e = uf_user_arn uf}" by simp
  show ips: "unique_ips uf
      = int (card (source_ip ` {e \<in> set events. user_arn e = uf_user_arn uf} - {[]}))"
    unfolding user_features_fields(4) [OF u] distinct_values_card s ..
  show regions: "unique_regions uf
      = int (card (aws_region ` {e \<in> set events. user_arn e = uf_user_arn uf} - {[]}))"
    unfolding user_features_fields(11) [OF u] distinct_values_card s ..
  show "\<exists>rules. evaluate uf = Inr rules
      \<and> (''R04_MULTIPLE_SOURCE_IPS'' \<in> set rules \<longleftrightarrow>
           3 \<le> card (source_ip ` {e \<in> set events. user_arn e = uf_user_arn uf} - {[]}))
      \<and> (''R08_MULTI_REGION_ACTIVITY'' \<in> set rules \<longleftrightarrow>
           2 \<le> card (aws_region ` {e \<in> set events. user_arn e = uf_user_arn uf} - {[]}))"
    unfolding evaluate_closed_form using ips regions
    by (simp add: count_rules_iff)
qed

lemma extract_gina: "extract_user_features gina_events = Inr [gina_features]"
  by (simp add: extract_user_features_def user_events_def gina_events_def
     plain_event_def utc_def user_features_def max_consecutive_failures_def sorted_by_time_def
     comparable_def time_key_def truthy_def truthy_opt_def count_if_def is_off_hours_def hour_def
     ADMIN_EVENTS_def gina_features_def no_features_def)

theorem empty_values_not_counted_witness:
  "comparable (map event_time gina_events)
   \<and> extract_user_features gina_events = Inr [gina_features]
   \<and> gina_features \<in> set [gina_features]
   \<and> card (source_ip ` set gina_events) = 3
   \<and> card (source_ip ` {e \<in> set gina_events. user_arn e = uf_user_arn gina_features} - {[]}) = 2
   \<and> unique_ips gina_features = 2
   \<and> unique_regions gina_features = 1
   \<and> evaluate gina_features = Inr []"
proof -
  have c: "comparable (map event_time gina_events)"
    by (simp add: comparable_def gina_events_def plain_event_def utc_def)
  have m: "gina_features \<in> set [gina_features]" by simp
  have n: "card (source_ip ` set gina_events) = 3"
    by (simp add: gina_events_def plain_event_def card_insert_if)
  have u: "unique_ips gina_features = 2" "unique_regions gina_features = 1"
    by (simp_all add: gina_features_def)
  have e: "evaluate gina_features = Inr []"
    unfolding evaluate_closed_form
    by (simp add: rule_table_def picked_def gina_features_def no_features_def)
  from empty_values_not_counted [of gina_events, THEN conjunct2, rule_format, OF conjI,
      OF extract_gina m] u
  have k: "card (source_ip ` {e \<in> set gina_events. user_arn e = uf_user_arn gina_features} - {[]}) = 2"
    by simp
  from c extract_gina m n k u e show ?thesis by blast
qed

subsection \<open>What the scan computes\<close>

lemma scan_step:
  "scan_failures (e # es) (m, c) =
     (if failed e then scan_failures es (max m (c + 1), c + 1) else scan_failures es (m, 0))"
  by (simp add: failed_def Let_def)

lemma scan_ge_max: "m \<le> fst (scan_failures evs (m, c))"
proof (induction evs arbitrary: m c)
  case Nil
  show ?case by simp
next
  case (Cons e es)
  show ?case
  proof (cases "failed e")
    case True
    have "max m (c + 1) \<le> fst (scan_failures es (max m (c + 1), c + 1))" by (rule Cons.IH)
    then show ?thesis using True by (simp add: scan_step del: scan_failures.simps(2))
  next
    case False
    then show ?thesis using Cons.IH [of m 0] by (simp add: scan_step del: scan_failures.simps(2))
  qed
qed

lemma scan_ge_leading_run:
  assumes "evs = run @ post" "\<forall>e\<in>set run. failed e" "c \<le> m"
  shows "c + int (length run) \<le> fst (scan_failures evs (m, c))"
  using assms
proof (induction run arbitrary: evs m c)
  case Nil
  have "m \<le> fst (scan_failures evs (m, c))" by (rule scan_ge_max)
  with Nil show ?case by simp
next
  case (Cons e run)
  have f: "failed e" using Cons.prems(2) by simp
  have "c + 1 + int (length run) \<le> fst (scan_failures (run @ post) (max m (c + 1), c + 1))"
    by (rule Cons.IH) (use Cons.prems in auto)
  then show ?case using f Cons.prems(1) by (simp add: scan_step del: scan_failures.simps(2))
qed

lemma scan_ge_any_run:
  assumes "evs = pre @ run @ post" "\<forall>e\<in>set run. failed e" "0 \<le> c" "c \<le> m"
  shows "int (length run) \<le> fst (scan_failures evs (m, c))"
  using assms
proof (induction pre arbitrary: evs m c)
  case Nil
  then have "c + int (length run) \<le> fst (scan_failures evs (m, c))"
    by (intro scan_ge_leading_run [of evs run post]) auto
  with Nil.prems(3) show ?case by simp
next
  case (Cons e pre)
  show ?case
  proof (cases "failed e")
    case True
    have "int (length run) \<le> fst (scan_failures (pre @ run @ post) (max m (c + 1), c + 1))"
      by (rule Cons.IH) (use Cons.prems in auto)
    then show ?thesis using True Cons.prems(1) by (simp add: scan_step del: scan_failures.simps(2))
  next
    case False
    have "int (length run) \<le> fst (scan_failures (pre @ run @ post) (m, 0))"
      by (rule Cons.IH) (use Cons.prems in auto)
    then show ?thesis using False Cons.prems(1) by (simp add: scan_step del: scan_failures.simps(2))
  qed
qed

lemma scan_attained:
  "fst (scan_failures evs (m, c)) = m
   \<or> (\<exists>run post. evs = run @ post \<and> (\<forall>e\<in>set run. failed e)
        \<and> fst (scan_failures evs (m, c)) = c + int (length run))
   \<or> (\<exists>pre run post. evs = pre @ run @ post \<and> (\<forall>e\<in>set run. failed e)
        \<and> fst (scan_failures evs (m, c)) = int (length run))"
proof (induction evs arbitrary: m c)
  case Nil
  show ?case by simp
next
  case (Cons e es)
  show ?case
  proof (cases "failed e")
    case True
    let ?R = "fst (scan_failures es (max m (c + 1), c + 1))"
    have R: "fst (scan_failures (e # es) (m, c)) = ?R" using True by (simp add: scan_step del: scan_failures.simps(2))
    from Cons.IH [of "max m (c + 1)" "c + 1"]
    consider (a) "?R = max m (c + 1)"
      | (b) run post where "es = run @ post" "\<forall>e\<in>set run. failed e"
          "?R = c + 1 + int (length run)"
      | (c) pre run post where "es = pre @ run @ post" "\<forall>e\<in>set run. failed e"
          "?R = int (length run)"
      by blast
    then show ?thesis
    proof cases
      case a
      show ?thesis
      proof (cases "m \<le> c + 1")
        case True
        have "e # es = [e] @ es \<and> (\<forall>x\<in>set [e]. failed x) \<and> ?R = c + int (length [e])"
          using a True \<open>failed e\<close> by (simp add: max_def)
        then show ?thesis unfolding R by blast
      next
        case False
        then show ?thesis unfolding R using a by (simp add: max_def)
      qed
    next
      case b
      have "e # es = (e # run) @ post \<and> (\<forall>x\<in>set (e # run). failed x)
          \<and> ?R = c + int (length (e # run))"
        using b True by simp
      then show ?thesis unfolding R by blast
    next
      case c
      have "e # es = (e # pre) @ run @ post" using c(1) by simp
      with c(2,3) show ?thesis unfolding R by blast
    qed
  next
    case False
    let ?R = "fst (scan_failures es (m, 0))"
    have R: "fst (scan_failures (e # es) (m, c)) = ?R" using False by (simp add: scan_step del: scan_failures.simps(2))
    from Cons.IH [of m 0]
    consider (a) "?R = m"
      | (b) run post where "es = run @ post" "\<forall>e\<in>set run. failed e" "?R = 0 + int (length run)"
      | (c) pre run post where "es = pre @ run @ post" "\<forall>e\<in>set run. failed e"
          "?R = int (length run)"
      by blast
    then show ?thesis
    proof cases
      case a
      then show ?thesis unfolding R by simp
    next
      case b
      have "e # es = [e] @ run @ post" using b(1) by simp
      with b(2,3) show ?thesis unfolding R by (metis add_0)
    next
      case c
      have "e # es = (e # pre) @ run @ post" using c(1) by simp
      with c(2,3) show ?thesis unfolding R by blast
    qed
  qed
qed

text \<open>
  The scan returns the length of a longest block of consecutive failed events: some
  block of failures has that length, and no block of failures is longer.
\<close>

lemma scan_is_longest_run:
  "(\<exists>pre run post. evs = pre @ run @ post \<and> (\<forall>e\<in>set run. failed e)
      \<and> fst (scan_failures evs (0, 0)) = int (length run))
   \<and> (\<forall>pre run post. evs = pre @ run @ post \<and> (\<forall>e\<in>set run. failed e)
      \<longrightarrow> int (length run) \<le> fst (scan_failures evs (0, 0)))"
proof
  from scan_attained [of evs 0 0]
  consider (a) "fst (scan_failures evs (0, 0)) = 0"
    | (b) run post where "evs = run @ post" "\<forall>e\<in>set run. failed e"
        "fst (scan_failures evs (0, 0)) = 0 + int (length run)"
    | (c) pre run post where "evs = pre @ run @ post" "\<forall>e\<in>set run. failed e"
        "fst (scan_failures evs (0, 0)) = int (length run)"
    by blast
  then show "\<exists>pre run post. evs = pre @ run @ post \<and> (\<forall>e\<in>set run. failed e)
      \<and> fst (scan_failures evs (0, 0)) = int (length run)"
  proof cases
    case a
    have "evs = [] @ [] @ evs \<and> (\<forall>e\<in>set []. failed e)
        \<and> fst (scan_failures evs (0, 0)) = int (length ([] :: CloudTrailEvent list))"
      using a by simp
    then show ?thesis by blast
  next
    case b
    have "evs = [] @ run @ post" using b(1) by simp
    with b(2,3) show ?thesis by (metis add_0)
  next
    case c
    then show ?thesis by blast
  qed
  show "\<forall>pre run post. evs = pre @ run @ post \<and> (\<forall>e\<in>set run. failed e)
      \<longrightarrow> int (length run) \<le> fst (scan_failures evs (0, 0))"
    using scan_ge_any_run [of evs _ _ _ 0 0] by blast
qed

subsection \<open>The longest run of failures and the input order\<close>


lemma comparable_perm:
  assumes "mset evs' = mset evs"
  shows "comparable (map event_time evs') = comparable (map event_time evs)"
proof -
  have "set evs' = set evs" using assms by (rule mset_eq_setD)
  then show ?thesis by (simp add: comparable_iff)
qed

lemma sort_key_perm:
  assumes "mset evs' = mset evs" and "distinct (map f evs)"
  shows "sort_key f evs' = sort_key f evs"
proof (rule sort_key_inj_key_eq)
  show "mset evs' = mset (sort_key f evs)" using assms(1) by simp
  have "inj_on f (set evs)" using assms(2) by (simp add: distinct_map)
  moreover have "set evs' = set evs" using assms(1) by (rule mset_eq_setD)
  ultimately show "inj_on f (set evs')" by simp
  show "sorted (map f (sort_key f evs))" by simp
qed

lemma max_consecutive_failures_perm:
  assumes "mset evs' = mset evs"
    and "distinct (map (\<lambda>e. time_key (event_time e)) evs)"
  shows "max_consecutive_failures evs' = max_consecutive_failures evs"
  unfolding max_consecutive_failures_def sorted_by_time_def
  by (simp add: comparable_perm [OF assms(1)] sort_key_perm [OF assms])

lemma count_if_perm:
  assumes "mset xs' = mset xs"
  shows "count_if P xs' = count_if P xs"
proof -
  have "mset (filter P xs') = mset (filter P xs)" using assms by simp
  then have "length (filter P xs') = length (filter P xs)" by (rule mset_eq_length)
  then show ?thesis by (simp add: count_if_def)
qed

lemma distinct_count_perm:
  assumes "mset xs' = mset xs"
  shows "length (remdups (map f (filter P xs'))) = length (remdups (map f (filter P xs)))"
proof -
  have "set xs' = set xs" using assms by (rule mset_eq_setD)
  then have "set (map f (filter P xs')) = set (map f (filter P xs))" by simp
  then show ?thesis by (simp only: length_remdups_card_conv)
qed

lemma distinct_names_perm:
  assumes "mset xs' = mset xs"
  shows "length (remdups (map f xs')) = length (remdups (map f xs))"
  using distinct_count_perm [OF assms, of f "\<lambda>x. True"] by simp

lemma user_features_perm:
  assumes "mset evs' = mset evs"
    and "max_consecutive_failures evs' = max_consecutive_failures evs"
  shows "user_features arn evs' = user_features arn evs"
  unfolding user_features_def Let_def assms(2)
    count_if_perm [OF assms(1)] distinct_count_perm [OF assms(1)]
    distinct_names_perm [OF assms(1)] mset_eq_length [OF assms(1)] ..

text \<open>
  C4, amended. \<open>max_consecutive_failures\<close> sorts the partition's events by
  timestamp (a stable sort) and scans the sorted list once with the streak counter. For
  two orderings of a partition whose timestamps are pairwise distinct it returns the same
  run, and the whole feature record is the same; the rule CONSECUTIVE_FAILURES triggers
  exactly when the run of the time-sorted events is at least 5, whatever the input
  order.
\<close>

theorem failure_run_order_independent:
  assumes "mset evs' = mset evs"
    and "distinct (map (\<lambda>e. time_key (event_time e)) evs)"
  shows "max_consecutive_failures evs' = max_consecutive_failures evs
    \<and> user_features arn evs' = user_features arn evs
    \<and> (comparable (map event_time evs) \<longrightarrow>
         max_consecutive_failures evs
           = Inr (fst (scan_failures (sort_key (\<lambda>e. time_key (event_time e)) evs) (0, 0)))
         \<and> (\<exists>uf rules. user_features arn evs = Inr uf \<and> evaluate uf = Inr rules
              \<and> (''R06_CONSECUTIVE_FAILURES'' \<in> set rules \<longleftrightarrow>
                   5 \<le> fst (scan_failures (sort_key (\<lambda>e. time_key (event_time e)) evs) (0, 0)))))"
proof -
  have m: "max_consecutive_failures evs' = max_consecutive_failures evs"
    using assms by (rule max_consecutive_failures_perm)
  have u: "user_features arn evs' = user_features arn evs"
    using assms(1) m by (rule user_features_perm)
  have c: "comparable (map event_time evs) \<longrightarrow>
         max_consecutive_failures evs
           = Inr (fst (scan_failures (sort_key (\<lambda>e. time_key (event_time e)) evs) (0, 0)))
         \<and> (\<exists>uf rules. user_features arn evs = Inr uf \<and> evaluate uf = Inr rules
              \<and> (''R06_CONSECUTIVE_FAILURES'' \<in> set rules \<longleftrightarrow>
                   5 \<le> fst (scan_failures (sort_key (\<lambda>e. time_key (event_time e)) evs) (0, 0))))"
  proof
    assume cmp: "comparable (map event_time evs)"
    have r: "max_consecutive_failures evs
           = Inr (fst (scan_failures (sort_key (\<lambda>e. time_key (event_time e)) evs) (0, 0)))"
      using cmp by (simp add: max_consecutive_failures_def sorted_by_time_def)
    from user_features_returns [OF cmp] obtain uf where uf: "user_features arn evs = Inr uf"
      by blast
    have cf: "consecutive_failures uf
        = fst (scan_failures (sort_key (\<lambda>e. time_key (event_time e)) evs) (0, 0))"
      using user_features_fields(8) [OF uf] r by simp
    have "''R06_CONSECUTIVE_FAILURES'' \<in> set (picked (rule_table uf)) \<longleftrightarrow>
        5 \<le> fst (scan_failures (sort_key (\<lambda>e. time_key (event_time e)) evs) (0, 0))"
      by (simp add: count_rules_iff cf)
    with r uf show "max_consecutive_failures evs
           = Inr (fst (scan_failures (sort_key (\<lambda>e. time_key (event_time e)) evs) (0, 0)))
         \<and> (\<exists>uf rules. user_features arn evs = Inr uf \<and> evaluate uf = Inr rules
              \<and> (''R06_CONSECUTIVE_FAILURES'' \<in> set rules \<longleftrightarrow>
                   5 \<le> fst (scan_failures (sort_key (\<lambda>e. time_key (event_time e)) evs) (0, 0))))"
      using evaluate_closed_form by blast
  qed
  from m u c show ?thesis by blast
qed

text \<open>
  C4 as stated fails when timestamps tie: the sort is stable, so tied events keep their
  input order. Heidi's six events carry the same timestamp; in one input order the run
  is 5 and CONSECUTIVE_FAILURES triggers, in the other the run is 3 and it does not.
\<close>

theorem failure_run_depends_on_tie_order:
  "mset heidi_reordered = mset heidi_events
   \<and> max_consecutive_failures heidi_events = Inr 5
   \<and> max_consecutive_failures heidi_reordered = Inr 3
   \<and> user_features ''heidi'' heidi_events = Inr heidi_features
   \<and> user_features ''heidi'' heidi_reordered = Inr (heidi_features\<lparr>consecutive_failures := 3\<rparr>)
   \<and> evaluate heidi_features = Inr [''R05_HIGH_FAILURE_RATE'', ''R06_CONSECUTIVE_FAILURES'']
   \<and> evaluate (heidi_features\<lparr>consecutive_failures := 3\<rparr>) = Inr [''R05_HIGH_FAILURE_RATE'']"
proof -
  have p: "mset heidi_reordered = mset heidi_events"
    by (simp add: heidi_reordered_def heidi_events_def)
  have a: "max_consecutive_failures heidi_events = Inr 5"
    by (simp add: heidi_events_def event_defs feature_defs)
  have b: "max_consecutive_failures heidi_reordered = Inr 3"
    by (simp add: heidi_reordered_def event_defs feature_defs)
  have ua: "user_features ''heidi'' heidi_events = Inr heidi_features"
    by (simp add: heidi_events_def event_defs feature_defs heidi_features_def no_features_def)
  have ub: "user_features ''heidi'' heidi_reordered
      = Inr (heidi_features\<lparr>consecutive_failures := 3\<rparr>)"
    by (simp add: heidi_reordered_def event_defs feature_defs heidi_features_def no_features_def)
  have ea: "evaluate heidi_features
      = Inr [''R05_HIGH_FAILURE_RATE'', ''R06_CONSECUTIVE_FAILURES'']"
    unfolding evaluate_closed_form
    by (simp add: rule_table_def picked_def heidi_features_def no_features_def)
  have eb: "evaluate (heidi_features\<lparr>consecutive_failures := 3\<rparr>)
      = Inr [''R05_HIGH_FAILURE_RATE'']"
    unfolding evaluate_closed_form
    by (simp add: rule_table_def picked_def heidi_features_def no_features_def)
  from p a b ua ub ea eb show ?thesis by blast
qed

theorem failure_run_order_independent_witness:
  "mset ivan_reordered = mset ivan_events
   \<and> distinct (map (\<lambda>e. time_key (event_time e)) ivan_events)
   \<and> comparable (map event_time ivan_events)
   \<and> max_consecutive_failures ivan_events = Inr 3
   \<and> max_consecutive_failures ivan_reordered = Inr 3
   \<and> user_features ''ivan'' ivan_reordered = user_features ''ivan'' ivan_events"
proof -
  have p: "mset ivan_reordered = mset ivan_events"
    by (simp add: ivan_reordered_def ivan_events_def)
  have d: "distinct (map (\<lambda>e. time_key (event_time e)) ivan_events)"
    by (simp add: ivan_events_def event_defs time_key_def)
  have c: "comparable (map event_time ivan_events)"
    by (simp add: ivan_events_def event_defs comparable_def)
  have a: "max_consecutive_failures ivan_events = Inr 3"
    by (simp add: ivan_events_def event_defs feature_defs)
  from failure_run_order_independent [OF p d, of "''ivan''"] p d c a
  show ?thesis by simp
qed

text \<open>
  The minimal detector scans a bucket in input order, without sorting: there the run
  depends on the input order even when all timestamps differ.
\<close>

lemma mvp_scan_follows_input_order:
  "mset ivan_reordered = mset ivan_events
   \<and> mvp_max_consec ivan_events = 3
   \<and> mvp_max_consec ivan_reordered = 2"
  by (simp add: mvp_max_consec_def ivan_events_def ivan_reordered_def event_defs truthy_opt_def
      truthy_def)

section \<open>A scenario: four high-privilege events without MFA\<close>


lemma count_if_all: "(\<forall>x\<in>set xs. P x) \<Longrightarrow> count_if P xs = int (length xs)"
  by (simp add: count_if_def)

lemma sum_list_two_members:
  assumes "a \<in> set xs" "b \<in> set xs" "a \<noteq> b" "\<And>x. (0::rat) \<le> f x"
  shows "f a + f b \<le> sum_list (map f xs)"
proof -
  have b': "b \<in> set (remove1 a xs)" using assms(2,3) by simp
  have "sum_list (map f xs) = f a + sum_list (map f (remove1 a xs))"
    using assms(1) by (rule sum_list_map_remove1)
  also have "sum_list (map f (remove1 a xs)) = f b + sum_list (map f (remove1 b (remove1 a xs)))"
    using b' by (rule sum_list_map_remove1)
  finally have "sum_list (map f xs) = f a + f b + sum_list (map f (remove1 b (remove1 a xs)))"
    by simp
  moreover have "0 \<le> sum_list (map f (remove1 b (remove1 a xs)))"
    by (rule sum_list_nonneg) (use assms(4) in auto)
  ultimately show ?thesis by simp
qed

lemma level_eq_level_of_score:
  "level (calculate_risk_score result uf) = level_of (score (calculate_risk_score result uf))"
  by (simp add: score_eq_final calc_fields(2) MAX_SCORE_def)

text \<open>
  C5, amended. An account with exactly four events, all high-privilege, none with
  MFA, from one source address: the rules HIGH_RISK_NO_MFA and HIGH_RISK_RATIO trigger
  (MULTIPLE_SOURCE_IPS does not), the score is at least 35, and the level is at least
  MEDIUM exactly when the score is at least 40. With no other contribution (no further
  rule, no ML signal, no failure run) the score is 35 and the level is LOW.
\<close>

theorem four_risky_events_scenario:
  assumes "user_features arn evts = Inr uf"
    and "length evts = 4"
    and "\<forall>e\<in>set evts. is_high_risk e \<and> \<not> mfa_used e"
    and "card (source_ip ` set evts) = 1"
  shows "\<exists>dr. detect_one self ml_scores uf = Inr dr
    \<and> ''R03_HIGH_RISK_NO_MFA'' \<in> set (triggered_rules dr)
    \<and> ''R02_HIGH_RISK_RATIO'' \<in> set (triggered_rules dr)
    \<and> ''R04_MULTIPLE_SOURCE_IPS'' \<notin> set (triggered_rules dr)
    \<and> 35 \<le> score (calculate_risk_score dr uf)
    \<and> (level_rank MEDIUM \<le> level_rank (level (calculate_risk_score dr uf)) \<longleftrightarrow>
         40 \<le> score (calculate_risk_score dr uf))
    \<and> (triggered_rules dr = [''R02_HIGH_RISK_RATIO'', ''R03_HIGH_RISK_NO_MFA'']
         \<and> detection_method dr = Rule \<and> consecutive_failures uf = 0 \<longrightarrow>
           score (calculate_risk_score dr uf) = 35
           \<and> level (calculate_risk_score dr uf) = LOW)"
proof -
  have tot: "total_events uf = 4"
    using user_features_fields(2) [OF assms(1)] assms(2) by simp
  have hr: "high_risk_event_count uf = 4"
    using user_features_fields(5) [OF assms(1)] assms(2,3) by (simp add: count_if_all)
  have mfa: "mfa_missing_high_risk uf = 4"
    using user_features_fields(9) [OF assms(1)] assms(2,3) by (simp add: count_if_all)
  obtain dr where dr: "detect_one self ml_scores uf = Inr dr"
    by (simp add: detect_one_closed_form)
  have tr: "triggered_rules dr = picked (rule_table uf)"
    using dr by (auto simp: detect_one_closed_form)
  have r3: "''R03_HIGH_RISK_NO_MFA'' \<in> set (triggered_rules dr)"
    by (simp add: tr count_rules_iff mfa)
  have r2: "''R02_HIGH_RISK_RATIO'' \<in> set (triggered_rules dr)"
    by (simp add: tr ratio_rules_iff tot hr)
  have "card (source_ip ` set evts - {[]}) \<le> card (source_ip ` set evts)"
    by (intro card_mono) auto
  then have ips: "unique_ips uf \<le> 1"
    unfolding user_features_fields(4) [OF assms(1)] distinct_values_card assms(4) by simp
  have r4: "''R04_MULTIPLE_SOURCE_IPS'' \<notin> set (triggered_rules dr)"
    using ips by (simp add: tr count_rules_iff)
  have "base_points ''R02_HIGH_RISK_RATIO'' + base_points ''R03_HIGH_RISK_NO_MFA''
      \<le> sum_list (map base_points (triggered_rules dr))"
    using r2 r3 by (intro sum_list_two_members) (simp_all add: less_imp_le [OF base_points_pos])
  then have "35 \<le> sum_list (map base_points (triggered_rules dr))"
    by (simp add: base_points_def RULE_BASE_SCORES_def)
  then have "35 \<le> additive_total dr uf"
    by (simp add: additive_total_def min_def)
  then have sc: "35 \<le> score (calculate_risk_score dr uf)"
    by (simp add: score_eq_final)
  have lv: "level_rank MEDIUM \<le> level_rank (level (calculate_risk_score dr uf)) \<longleftrightarrow>
         40 \<le> score (calculate_risk_score dr uf)"
    unfolding level_eq_level_of_score by simp
  have alone: "triggered_rules dr = [''R02_HIGH_RISK_RATIO'', ''R03_HIGH_RISK_NO_MFA'']
         \<and> detection_method dr = Rule \<and> consecutive_failures uf = 0 \<longrightarrow>
           score (calculate_risk_score dr uf) = 35
           \<and> level (calculate_risk_score dr uf) = LOW"
  proof
    assume a: "triggered_rules dr = [''R02_HIGH_RISK_RATIO'', ''R03_HIGH_RISK_NO_MFA'']
         \<and> detection_method dr = Rule \<and> consecutive_failures uf = 0"
    then have "additive_total dr uf = 35"
      by (simp add: additive_total_def base_points_def RULE_BASE_SCORES_def)
    then have s35: "score (calculate_risk_score dr uf) = 35" by (simp add: score_eq_final)
    then have "level (calculate_risk_score dr uf) = LOW"
      by (simp add: level_eq_level_of_score)
    with s35 show "score (calculate_risk_score dr uf) = 35
           \<and> level (calculate_risk_score dr uf) = LOW" by simp
  qed
  from dr r3 r2 r4 sc lv alone show ?thesis by blast
qed

subsection \<open>Evaluating a partition by its columns\<close>

text \<open>
  For a partition that is already in time order the features are read off the columns
  of its events; this keeps the evaluation of a longer concrete partition small.
\<close>

lemma count_if_column: "count_if (\<lambda>e. P (f e)) xs = int (length (filter P (map f xs)))"
  by (simp add: count_if_def filter_map o_def)

lemma count_if_none: "(\<forall>e\<in>set xs. \<not> P e) \<Longrightarrow> count_if (\<lambda>e. P e \<and> Q e) xs = 0"
  by (simp add: count_if_def)

lemma truthy_column:
  "map f (filter (\<lambda>e. truthy (f e)) xs) = filter truthy (map f xs)"
  by (simp add: filter_map o_def)

lemma scan_all_failed:
  assumes "\<forall>e\<in>set evs. failed e"
  shows "fst (scan_failures evs (0, 0)) = int (length evs)"
proof -
  have "0 + int (length evs) \<le> fst (scan_failures evs (0, 0))"
    by (rule scan_ge_leading_run [of evs evs "[]"]) (use assms in auto)
  moreover from scan_is_longest_run [of evs]
  obtain pre run post where "evs = pre @ run @ post"
    and "fst (scan_failures evs (0, 0)) = int (length run)" by blast
  then have "fst (scan_failures evs (0, 0)) \<le> int (length evs)" by simp
  ultimately show ?thesis by simp
qed

lemma max_consecutive_failures_in_order:
  assumes "comparable (map event_time evts)"
    and "sorted (map time_key (map event_time evts))"
  shows "max_consecutive_failures evts = Inr (fst (scan_failures evts (0, 0)))"
proof -
  have "sorted (map (\<lambda>e. time_key (event_time e)) evts)"
    using assms(2) by (simp add: o_def)
  then have "sort_key (\<lambda>e. time_key (event_time e)) evts = evts"
    by (rule sort_key_id_if_sorted)
  then show ?thesis
    using assms(1) by (simp add: max_consecutive_failures_def sorted_by_time_def)
qed

lemma user_features_in_order:
  assumes "comparable (map event_time evts)"
    and "sorted (map time_key (map event_time evts))"
  shows "user_features arn evts =
    Inr \<lparr> uf_user_arn = arn,
          total_events = int (length evts),
          unique_event_names = int (length (remdups (map event_name evts))),
          unique_ips = int (length (remdups (filter truthy (map source_ip evts)))),
          high_risk_event_count = count_if is_high_risk evts,
          failed_event_count = int (length (filter truthy_opt (map error_code evts))),
          off_hours_event_count = int (length (filter is_off_hours (map event_time evts))),
          consecutive_failures = fst (scan_failures evts (0, 0)),
          mfa_missing_high_risk = count_if (\<lambda>e. is_high_risk e \<and> \<not> mfa_used e) evts,
          admin_action_count
            = int (length (filter (\<lambda>n. n \<in> set ADMIN_EVENTS) (map event_name evts))),
          unique_regions = int (length (remdups (filter truthy (map aws_region evts)))) \<rparr>"
  unfolding user_features_def Let_def max_consecutive_failures_in_order [OF assms]
  by (simp add: count_if_def filter_map o_def)

subsection \<open>The batch of Erin, Frank and Mallory\<close>

lemma mallory_columns:
  "length mallory_events = 8"
  "map event_name mallory_events
    = [''GetObject'', ''ListBuckets'', ''PutObject'', ''DescribeInstances'',
       ''GetObject'', ''ListBuckets'', ''PutObject'', ''DescribeInstances'']"
  "map source_ip mallory_events
    = [''10.0.0.7'', ''10.0.0.8'', ''10.0.0.9'', ''10.0.0.7'',
       ''10.0.0.8'', ''10.0.0.9'', ''10.0.0.7'', ''10.0.0.8'']"
  "map aws_region mallory_events
    = [''us-east-1'', ''eu-west-1'', ''us-east-1'', ''eu-west-1'',
       ''us-east-1'', ''eu-west-1'', ''us-east-1'', ''eu-west-1'']"
  "map is_high_risk mallory_events = replicate 8 False"
  "map error_code mallory_events = replicate 8 (Some ''AccessDenied'')"
  "map event_time mallory_events
    = map utc [7200, 7260, 7320, 7380, 7440, 7500, 7560, 7620]"
  by (simp_all add: mallory_events_def denied_event_def failed_event_def plain_event_def
      numeral_eq_Suc)

lemma mallory_all_failed: "\<forall>e\<in>set mallory_events. failed e"
proof
  fix e assume "e \<in> set mallory_events"
  then have "error_code e \<in> set (map error_code mallory_events)" by simp
  then have "error_code e = Some ''AccessDenied''"
    unfolding mallory_columns(6) by simp
  then show "failed e" by (simp add: failed_def truthy_opt_def truthy_def)
qed

lemma mallory_no_high_risk: "\<forall>e\<in>set mallory_events. \<not> is_high_risk e"
proof
  fix e assume "e \<in> set mallory_events"
  then have "is_high_risk e \<in> set (map is_high_risk mallory_events)" by simp
  then show "\<not> is_high_risk e" unfolding mallory_columns(5) by simp
qed

lemma mallory_times:
  "comparable (map event_time mallory_events)"
  "sorted (map time_key (map event_time mallory_events))"
  unfolding mallory_columns(7)
  by (simp_all add: comparable_def utc_def time_key_def)

lemma mallory_off_hours:
  "filter is_off_hours (map event_time mallory_events) = map event_time mallory_events"
  unfolding mallory_columns(7)
  by (simp add: is_off_hours_def hour_def utc_def)

lemma user_features_mallory: "user_features ''mallory'' mallory_events = Inr mallory_features"
proof -
  have hr: "count_if is_high_risk mallory_events = 0"
    using mallory_no_high_risk by (simp add: count_if_def)
  have mfa: "count_if (\<lambda>e. is_high_risk e \<and> \<not> mfa_used e) mallory_events = 0"
    using mallory_no_high_risk by (rule count_if_none)
  have run: "fst (scan_failures mallory_events (0, 0)) = 8"
    using scan_all_failed [OF mallory_all_failed] by (simp add: mallory_columns(1))
  show ?thesis
    unfolding user_features_in_order [OF mallory_times] hr mfa run mallory_off_hours
    unfolding mallory_columns
    by (simp add: truthy_def truthy_opt_def ADMIN_EVENTS_def mallory_features_def
        no_features_def)
qed

lemma user_features_erin: "user_features ''erin'' erin_events = Inr erin_features"
  by (simp add: erin_events_def risky_event_def event_defs feature_defs erin_features_def
      no_features_def)

lemma user_features_frank:
  "user_features ''frank'' [plain_event ''frank'' 40000] = Inr frank_features"
  by (simp add: event_defs feature_defs frank_features_def no_features_def)

lemma user_events_three_accounts:
  "user_events three_account_batch
     = [(''erin'', erin_events), (''frank'', [plain_event ''frank'' 40000]),
        (''mallory'', mallory_events)]"
  by (simp add: three_account_batch_def user_events_def erin_events_def mallory_events_def
      risky_event_def denied_event_def failed_event_def plain_event_def)

lemma extract_three_accounts:
  "extract_user_features three_account_batch
     = Inr [erin_features, frank_features, mallory_features]"
  unfolding extract_user_features_def user_events_three_accounts
  by (simp add: user_features_erin user_features_frank user_features_mallory)

lemma fit_predict_three_accounts:
  "fit_predict (ml_detector default_AnomalyEngine) (sklearn_scoring three_account_scores)
      [erin_features, frank_features, mallory_features]
     = [(''erin'', 1 / 10), (''frank'', 3 / 20), (''mallory'', - (1 / 50))]"
  by (simp add: fit_predict_def sklearn_scoring_def three_account_scores_def dict_of_def
      erin_features_def frank_features_def mallory_features_def no_features_def)

lemma detect_one_erin:
  "detect_one default_AnomalyEngine
      [(''erin'', 1 / 10), (''frank'', 3 / 20), (''mallory'', - (1 / 50))] erin_features
     = Inr erin_result"
  by (simp add: detect_one_closed_form dict_get_def threshold_default rule_table_def picked_def
      erin_features_def no_features_def erin_result_def)

lemma detect_one_frank:
  "detect_one default_AnomalyEngine
      [(''erin'', 1 / 10), (''frank'', 3 / 20), (''mallory'', - (1 / 50))] frank_features
     = Inr frank_result"
  by (simp add: detect_one_closed_form dict_get_def threshold_default rule_table_def picked_def
      frank_features_def no_features_def frank_result_def)

lemma detect_one_mallory:
  "detect_one default_AnomalyEngine
      [(''erin'', 1 / 10), (''frank'', 3 / 20), (''mallory'', - (1 / 50))] mallory_features
     = Inr mallory_result"
  by (simp add: detect_one_closed_form dict_get_def threshold_default rule_table_def picked_def
      mallory_features_def no_features_def mallory_result_def)

lemma detect_three_accounts:
  "detect default_AnomalyEngine (sklearn_scoring three_account_scores)
      [erin_features, frank_features, mallory_features]
     = Inr [erin_result, frank_result, mallory_result]"
  unfolding detect_def Let_def fit_predict_three_accounts
  by (simp add: detect_one_erin detect_one_frank detect_one_mallory bind_err_def)

text \<open>
  C5 as stated fails: in the batch of Erin, Frank and Mallory under the default engine,
  Erin's four events trigger the two rules and nothing else contributes (her outlier
  score is above the threshold, she has no failure); her score is 35 and her level is
  LOW, below MEDIUM.
\<close>

theorem four_risky_events_level_low:
  "length erin_events = 4
   \<and> map is_high_risk erin_events = [True, True, True, True]
   \<and> map mfa_used erin_events = [False, False, False, False]
   \<and> remdups (map source_ip erin_events) = [''10.0.0.1'']
   \<and> extract_user_features three_account_batch
       = Inr [erin_features, frank_features, mallory_features]
   \<and> detect default_AnomalyEngine (sklearn_scoring three_account_scores)
          [erin_features, frank_features, mallory_features]
       = Inr [erin_result, frank_result, mallory_result]
   \<and> triggered_rules erin_result = [''R02_HIGH_RISK_RATIO'', ''R03_HIGH_RISK_NO_MFA'']
   \<and> detection_method erin_result = Rule
   \<and> score (calculate_risk_score erin_result erin_features) = 35
   \<and> level (calculate_risk_score erin_result erin_features) = LOW
   \<and> level_rank (level (calculate_risk_score erin_result erin_features)) < level_rank MEDIUM"
proof -
  have ev: "length erin_events = 4
   \<and> map is_high_risk erin_events = [True, True, True, True]
   \<and> map mfa_used erin_events = [False, False, False, False]
   \<and> remdups (map source_ip erin_events) = [''10.0.0.1'']"
    by (simp add: erin_events_def risky_event_def plain_event_def)
  have t: "triggered_rules erin_result = [''R02_HIGH_RISK_RATIO'', ''R03_HIGH_RISK_NO_MFA'']"
    and m: "detection_method erin_result = Rule"
    by (simp_all add: erin_result_def)
  have tot: "additive_total erin_result erin_features = 35"
    by (simp add: additive_total_def base_points_def RULE_BASE_SCORES_def erin_result_def
        erin_features_def no_features_def)
  have s: "score (calculate_risk_score erin_result erin_features) = 35"
    by (simp add: score_eq_final tot)
  have l: "level (calculate_risk_score erin_result erin_features) = LOW"
    by (simp add: level_eq_level_of_score s)
  from ev extract_three_accounts detect_three_accounts t m s l show ?thesis by simp
qed

theorem four_risky_events_scenario_witness:
  "user_features ''erin'' erin_events = Inr erin_features
   \<and> length erin_events = 4
   \<and> card (source_ip ` set erin_events) = 1
   \<and> detect_one default_AnomalyEngine
        [(''erin'', 1 / 10), (''frank'', 3 / 20), (''mallory'', - (1 / 50))] erin_features
       = Inr erin_result
   \<and> ''R03_HIGH_RISK_NO_MFA'' \<in> set (triggered_rules erin_result)
   \<and> ''R02_HIGH_RISK_RATIO'' \<in> set (triggered_rules erin_result)
   \<and> ''R04_MULTIPLE_SOURCE_IPS'' \<notin> set (triggered_rules erin_result)
   \<and> triggered_rules erin_result = [''R02_HIGH_RISK_RATIO'', ''R03_HIGH_RISK_NO_MFA'']
   \<and> detection_method erin_result = Rule
   \<and> consecutive_failures erin_features = 0
   \<and> score (calculate_risk_score erin_result erin_features) = 35
   \<and> level (calculate_risk_score erin_result erin_features) = LOW"
proof -
  have h2: "length erin_events = 4" by (simp add: erin_events_def)
  have h3: "\<forall>e\<in>set erin_events. is_high_risk e \<and> \<not> mfa_used e"
    by (simp add: erin_events_def risky_event_def plain_event_def)
  have h4: "card (source_ip ` set erin_events) = 1"
    by (simp add: erin_events_def risky_event_def plain_event_def)
  have t: "triggered_rules erin_result = [''R02_HIGH_RISK_RATIO'', ''R03_HIGH_RISK_NO_MFA'']"
    and m: "detection_method erin_result = Rule"
    by (simp_all add: erin_result_def)
  have c: "consecutive_failures erin_features = 0"
    by (simp add: erin_features_def no_features_def)
  from four_risky_events_scenario [OF user_features_erin h2 h3 h4, of default_AnomalyEngine
      "[(''erin'', 1 / 10), (''frank'', 3 / 20), (''mallory'', - (1 / 50))]"]
    detect_one_erin user_features_erin h2 h4 t m c
  show ?thesis by auto
qed

end
